theory Spec2Isabelle
  imports Complex_Main "HOL-Library.AList" "HOL-Library.Char_ord" "HOL-Library.List_Lexorder"
begin

section \<open>The lattice editor of app.py\<close>

text \<open>
  The program is the script embedded in \<^verbatim>\<open>src/app.py\<close>: an editor over a lattice of
  128 x 178 dots whose state is a set of edges, a degree per node, and a viewport
  (centre, extent, zoom) onto the drawing. JavaScript numbers are modelled by \<open>real\<close>
  (exact arithmetic: no rounding, no NaN, no infinities), \<^verbatim>\<open>null\<close> in a numeric field by
  \<open>None\<close>, a \<^verbatim>\<open>Map\<close> by an association list in insertion order, and the module-level
  variables by one record that every handler takes and returns. Drawing (\<^verbatim>\<open>draw\<close>) only
  paints and is left out.
\<close>

subsection \<open>Configuration\<close>

definition COLS :: int where "COLS = 128"
definition ROWS :: int where "ROWS = 178"
definition DOT_SPACING :: real where "DOT_SPACING = 9"
definition EDGE_HIT_RADIUS :: real where "EDGE_HIT_RADIUS = 10"
definition INITIAL_ZOOM :: real where "INITIAL_ZOOM = 3.2"
definition BORDER :: real where "BORDER = DOT_SPACING * 2"
definition DRAG_THRESHOLD :: real where "DRAG_THRESHOLD = 6"

definition gridWidth :: real where "gridWidth = (of_int COLS - 1) * DOT_SPACING"
definition gridHeight :: real where "gridHeight = (of_int ROWS - 1) * DOT_SPACING"
definition fullWidth :: real where "fullWidth = gridWidth + BORDER * 2"
definition fullHeight :: real where "fullHeight = gridHeight + BORDER * 2"

subsection \<open>Values\<close>

text \<open>
  What \<^verbatim>\<open>JSON.parse\<close> can return. An object is its list of members in source order;
  a string is its sequence of bytes.
\<close>

datatype jsval =
    JNull
  | JBool bool
  | JNum real
  | JStr string
  | JArr "jsval list"
  | JObj "(string \<times> jsval) list"

text \<open>\<^verbatim>\<open>ToNumber\<close> on a numeric field that may still hold \<^verbatim>\<open>null\<close>: \<^verbatim>\<open>null\<close> counts as 0.\<close>

definition num :: "real option \<Rightarrow> real" where
  "num v = (case v of None \<Rightarrow> 0 | Some r \<Rightarrow> r)"

subsection \<open>State\<close>

record viewport_rec =
  cx :: "real option"
  cy :: "real option"
  w :: "real option"
  h :: "real option"

record canvas_rec =
  width :: real
  height :: real

record pointer_start =
  start_x :: real
  start_y :: real
  start_cx :: "real option"
  start_cy :: "real option"

record state =
  zoom :: real
  viewport :: viewport_rec
  edges :: "(string \<times> bool) list"
  degree :: "(string \<times> int) list"
  canvas :: canvas_rec
  saveTimer :: "nat option"
  isPointerDown :: bool
  pointerStart :: "pointer_start option"
  isDragging :: bool

text \<open>
  \<^verbatim>\<open>scheduleSaveState(delay = 500)\<close>: a pending timer is replaced by a new one with the
  given delay. The field holds the delay of the pending timer, if any.
\<close>

definition scheduleSaveState :: "nat \<Rightarrow> state \<Rightarrow> state" where
  "scheduleSaveState delay s = s\<lparr>saveTimer := Some delay\<rparr>"

subsection \<open>Node and edge keys\<close>

text \<open>
  Keys are built by template literals, that is by \<^verbatim>\<open>ToString\<close> of each coordinate.
  \<open>num_str\<close> is the decimal numeral of a number: exact for an integer (JavaScript
  prints integers below \<open>10^21\<close> in magnitude this way), and for a fractional number its
  decimal expansion, cut after 17 digits (the exponent notation of very large and very
  small numbers is not modelled).
\<close>

definition digit_char :: "nat \<Rightarrow> char" where
  "digit_char d = char_of (48 + d)"

fun nat_str :: "nat \<Rightarrow> string" where
  "nat_str n = (if n < 10 then [digit_char n] else nat_str (n div 10) @ [digit_char (n mod 10)])"

declare nat_str.simps [simp del]

fun frac_digits :: "nat \<Rightarrow> real \<Rightarrow> string" where
  "frac_digits 0 f = []"
| "frac_digits (Suc k) f =
     (if f = 0 then [] else digit_char (nat \<lfloor>f * 10\<rfloor>) # frac_digits k (frac (f * 10)))"

definition num_str :: "real \<Rightarrow> string" where
  "num_str r =
     (if r < 0 then ''-'' else []) @ nat_str (nat \<lfloor>\<bar>r\<bar>\<rfloor>) @
     (if frac \<bar>r\<bar> = 0 then [] else ''.'' @ frac_digits 17 (frac \<bar>r\<bar>))"

text \<open>\<^verbatim>\<open>Array.prototype.join(",")\<close> on strings.\<close>

fun join_comma :: "string list \<Rightarrow> string" where
  "join_comma [] = []"
| "join_comma [s] = s"
| "join_comma (s # t # ss) = s @ '','' @ join_comma (t # ss)"

text \<open>\<^verbatim>\<open>ToString\<close>; inside an array, \<^verbatim>\<open>null\<close> joins as the empty string.\<close>

fun js_to_string :: "jsval \<Rightarrow> string" where
  "js_to_string JNull = ''null''"
| "js_to_string (JBool b) = (if b then ''true'' else ''false'')"
| "js_to_string (JNum r) = num_str r"
| "js_to_string (JStr s) = s"
| "js_to_string (JArr xs) =
     join_comma (map (\<lambda>v. if v = JNull then [] else js_to_string v) xs)"
| "js_to_string (JObj ms) = ''[object Object]''"

text \<open>A point \<^verbatim>\<open>{x: .., y: ..}\<close>.\<close>

record point =
  px :: jsval
  py :: jsval

definition nodeKey :: "jsval \<Rightarrow> jsval \<Rightarrow> string" where
  "nodeKey vx vy = js_to_string vx @ '','' @ js_to_string vy"

definition edgeKey :: "point \<Rightarrow> point \<Rightarrow> string" where
  "edgeKey a b =
     (let ka = nodeKey (px a) (py a); kb = nodeKey (px b) (py b)
      in if ka < kb then ka @ ''|'' @ kb else kb @ ''|'' @ ka)"

subsection \<open>The graph\<close>

text \<open>\<^verbatim>\<open>m.has(k)\<close>, and \<^verbatim>\<open>m.get(k) || d\<close> on a map of numbers (absent and 0 are falsy).\<close>

definition has :: "('k \<times> 'v) list \<Rightarrow> 'k \<Rightarrow> bool" where
  "has m k = (case map_of m k of None \<Rightarrow> False | Some v \<Rightarrow> True)"

definition get_or :: "('k \<times> int) list \<Rightarrow> 'k \<Rightarrow> int \<Rightarrow> int" where
  "get_or m k d = (case map_of m k of None \<Rightarrow> d | Some v \<Rightarrow> if v = 0 then d else v)"

definition addEdge :: "point \<Rightarrow> point \<Rightarrow> state \<Rightarrow> bool \<times> state" where
  "addEdge a b s =
     (let k = edgeKey a b in
      if has (edges s) k then (False, s)
      else
        (let da = get_or (degree s) (nodeKey (px a) (py a)) 0;
             db = get_or (degree s) (nodeKey (px b) (py b)) 0
         in if da \<ge> 2 \<or> db \<ge> 2 then (False, s)
            else
              (let s1 = s\<lparr>edges := AList.update k True (edges s)\<rparr>;
                   s2 = s1\<lparr>degree := AList.update (nodeKey (px a) (py a)) (da + 1) (degree s1)\<rparr>;
                   s3 = s2\<lparr>degree := AList.update (nodeKey (px b) (py b)) (db + 1) (degree s2)\<rparr>
               in (True, scheduleSaveState 500 s3))))"

definition removeEdge :: "point \<Rightarrow> point \<Rightarrow> state \<Rightarrow> bool \<times> state" where
  "removeEdge a b s =
     (let k = edgeKey a b in
      if has (edges s) k then
        (let s1 = s\<lparr>edges := AList.delete k (edges s)\<rparr>;
             s2 = s1\<lparr>degree := AList.update (nodeKey (px a) (py a))
                           (get_or (degree s1) (nodeKey (px a) (py a)) 1 - 1) (degree s1)\<rparr>;
             s3 = s2\<lparr>degree := AList.update (nodeKey (px b) (py b))
                           (get_or (degree s2) (nodeKey (px b) (py b)) 1 - 1) (degree s2)\<rparr>
         in (True, scheduleSaveState 500 s3))
      else (False, s))"

subsection \<open>Coordinate transforms\<close>

definition fullToScreen :: "state \<Rightarrow> real \<times> real \<Rightarrow> real \<times> real" where
  "fullToScreen s p =
     (let l = num (cx (viewport s)) - num (w (viewport s)) / 2;
          t = num (cy (viewport s)) - num (h (viewport s)) / 2
      in ((fst p - l) / num (w (viewport s)) * width (canvas s),
          (snd p - t) / num (h (viewport s)) * height (canvas s)))"

definition screenToFull :: "state \<Rightarrow> real \<times> real \<Rightarrow> real \<times> real" where
  "screenToFull s p =
     (let l = num (cx (viewport s)) - num (w (viewport s)) / 2;
          t = num (cy (viewport s)) - num (h (viewport s)) / 2
      in (l + fst p / width (canvas s) * num (w (viewport s)),
          t + snd p / height (canvas s) * num (h (viewport s))))"

subsection \<open>Viewport mutations\<close>

text \<open>
  \<^verbatim>\<open>resizeCanvas\<close> takes the container's client size, which the model receives as
  arguments.
\<close>

definition resizeCanvas :: "real \<Rightarrow> real \<Rightarrow> state \<Rightarrow> state" where
  "resizeCanvas clientWidth clientHeight s =
     (let c = \<lparr>width = clientWidth, height = clientHeight\<rparr>;
          v1 = (viewport s)\<lparr>w := Some (width c / zoom s), h := Some (height c / zoom s)\<rparr>;
          v2 = (if cx v1 = None then v1\<lparr>cx := Some (num (w v1) / 2)\<rparr> else v1);
          v3 = (if cy v2 = None then v2\<lparr>cy := Some (num (h v2) / 2)\<rparr> else v2)
      in s\<lparr>canvas := c, viewport := v3\<rparr>)"

text \<open>\<^verbatim>\<open>v || d\<close> on a numeric field: \<^verbatim>\<open>null\<close> and 0 are falsy.\<close>

definition or_default :: "real option \<Rightarrow> real \<Rightarrow> real" where
  "or_default v d = (case v of None \<Rightarrow> d | Some r \<Rightarrow> if r = 0 then d else r)"

text \<open>The \<^verbatim>\<open>resize\<close> listener of the window.\<close>

definition on_resize :: "real \<Rightarrow> real \<Rightarrow> state \<Rightarrow> state" where
  "on_resize clientWidth clientHeight s =
     (let s1 = resizeCanvas clientWidth clientHeight s;
          v1 = (viewport s1)\<lparr>w := Some (width (canvas s1) / zoom s1),
                             h := Some (height (canvas s1) / zoom s1)\<rparr>;
          v2 = v1\<lparr>cx := Some (max (num (w v1) / 2)
                     (min (fullWidth - num (w v1) / 2) (or_default (cx v1) (num (w v1) / 2))))\<rparr>;
          v3 = v2\<lparr>cy := Some (max (num (h v2) / 2)
                     (min (fullHeight - num (h v2) / 2) (or_default (cy v2) (num (h v2) / 2))))\<rparr>
      in s1\<lparr>viewport := v3\<rparr>)"

record pointer_event =
  clientX :: real
  clientY :: real
  rectLeft :: real
  rectTop :: real

text \<open>\<^verbatim>\<open>Math.hypot(dx, dy)\<close>.\<close>

definition hypot :: "real \<Rightarrow> real \<Rightarrow> real" where
  "hypot dx dy = sqrt (dx * dx + dy * dy)"

text \<open>The \<^verbatim>\<open>pointerdown\<close> listener of the canvas.\<close>

definition on_pointerdown :: "pointer_event \<Rightarrow> state \<Rightarrow> state" where
  "on_pointerdown ev s =
     s\<lparr>isPointerDown := True, isDragging := False,
       pointerStart := Some \<lparr>start_x = clientX ev, start_y = clientY ev,
                             start_cx = cx (viewport s), start_cy = cy (viewport s)\<rparr>\<rparr>"

text \<open>The \<^verbatim>\<open>pointermove\<close> listener of the window.\<close>

definition on_pointermove :: "pointer_event \<Rightarrow> state \<Rightarrow> state" where
  "on_pointermove ev s =
     (case pointerStart s of
        None \<Rightarrow> s
      | Some ps \<Rightarrow>
          if isPointerDown s then
            (let dx = clientX ev - start_x ps;
                 dy = clientY ev - start_y ps;
                 s1 = (if isDragging s then s
                       else if hypot dx dy > DRAG_THRESHOLD then s\<lparr>isDragging := True\<rparr> else s)
             in if isDragging s1 then
                  (let v = viewport s1;
                       fx = - dx * (num (w v) / width (canvas s1));
                       fy = - dy * (num (h v) / height (canvas s1));
                       v1 = v\<lparr>cx := Some (max (num (w v) / 2)
                                 (min (fullWidth - num (w v) / 2) (num (start_cx ps) + fx)))\<rparr>;
                       v2 = v1\<lparr>cy := Some (max (num (h v1) / 2)
                                 (min (fullHeight - num (h v1) / 2) (num (start_cy ps) + fy)))\<rparr>
                   in scheduleSaveState 300 (s1\<lparr>viewport := v2\<rparr>))
                else s1)
          else s)"

text \<open>
  The \<^verbatim>\<open>keydown\<close> listener of the window. Each of its six branches is a function of
  its own here; the listener tests the key against them one after the other, as the
  source does, with \<^verbatim>\<open>step\<close> computed once before the tests.
\<close>

definition pan_left :: "real \<Rightarrow> state \<Rightarrow> state" where
  "pan_left step s =
     s\<lparr>viewport := (viewport s)\<lparr>cx := Some (max (num (w (viewport s)) / 2)
                                              (num (cx (viewport s)) - step))\<rparr>\<rparr>"

definition pan_right :: "real \<Rightarrow> state \<Rightarrow> state" where
  "pan_right step s =
     s\<lparr>viewport := (viewport s)\<lparr>cx := Some (min (fullWidth - num (w (viewport s)) / 2)
                                              (num (cx (viewport s)) + step))\<rparr>\<rparr>"

definition pan_up :: "real \<Rightarrow> state \<Rightarrow> state" where
  "pan_up step s =
     s\<lparr>viewport := (viewport s)\<lparr>cy := Some (max (num (h (viewport s)) / 2)
                                              (num (cy (viewport s)) - step))\<rparr>\<rparr>"

definition pan_down :: "real \<Rightarrow> state \<Rightarrow> state" where
  "pan_down step s =
     s\<lparr>viewport := (viewport s)\<lparr>cy := Some (min (fullHeight - num (h (viewport s)) / 2)
                                              (num (cy (viewport s)) + step))\<rparr>\<rparr>"

definition zoom_in :: "state \<Rightarrow> state" where
  "zoom_in s =
     (let z = min 8 (zoom s * 1.2)
      in s\<lparr>zoom := z,
           viewport := (viewport s)\<lparr>w := Some (width (canvas s) / z),
                                    h := Some (height (canvas s) / z)\<rparr>\<rparr>)"

definition zoom_out :: "state \<Rightarrow> state" where
  "zoom_out s =
     (let z = max 0.6 (zoom s / 1.2)
      in s\<lparr>zoom := z,
           viewport := (viewport s)\<lparr>w := Some (width (canvas s) / z),
                                    h := Some (height (canvas s) / z)\<rparr>\<rparr>)"

definition on_keydown :: "string \<Rightarrow> state \<Rightarrow> state" where
  "on_keydown key s =
     (let step = max 10 (0.06 * min (num (w (viewport s))) (num (h (viewport s))));
          s1 = (if key = ''ArrowLeft'' then pan_left step s else s);
          s2 = (if key = ''ArrowRight'' then pan_right step s1 else s1);
          s3 = (if key = ''ArrowUp'' then pan_up step s2 else s2);
          s4 = (if key = ''ArrowDown'' then pan_down step s3 else s3);
          s5 = (if key = ''+'' \<or> key = ''='' then zoom_in s4 else s4);
          s6 = (if key = ''-'' \<or> key = ''_'' then zoom_out s5 else s5);
          changed = (key \<in> set [''ArrowLeft'', ''ArrowRight'', ''ArrowUp'', ''ArrowDown'',
                                  ''+'', ''='', ''-'', ''_''])
      in if changed then scheduleSaveState 500 s6 else s6)"

subsection \<open>Hit testing and the tap\<close>

text \<open>A lattice node with integer coordinates, as the hit test builds them.\<close>

definition node :: "int \<Rightarrow> int \<Rightarrow> point" where
  "node i j = \<lparr>px = JNum (of_int i), py = JNum (of_int j)\<rparr>"

text \<open>
  The best candidate so far is its squared distance and its two end points; \<open>None\<close> is
  the initial \<^verbatim>\<open>{ dist: Infinity, a: null, b: null }\<close>, below which every distance lies.
\<close>

type_synonym best = "(real \<times> point \<times> point) option"

definition closer :: "real \<Rightarrow> best \<Rightarrow> bool" where
  "closer d2 bst = (case bst of None \<Rightarrow> True | Some (d, a, b) \<Rightarrow> d2 < d)"

text \<open>The body of the two nested loops, at the cell \<open>(nx, ny)\<close>.\<close>

definition try_cell :: "real \<Rightarrow> real \<Rightarrow> int \<Rightarrow> int \<Rightarrow> best \<Rightarrow> best" where
  "try_cell fullX fullY nx ny best0 =
     (let best1 =
            (if nx \<ge> 0 \<and> nx + 1 < COLS \<and> ny \<ge> 0 \<and> ny < ROWS then
               (let ax = BORDER + of_int nx * DOT_SPACING;
                    ay = BORDER + of_int ny * DOT_SPACING;
                    bx = BORDER + of_int (nx + 1) * DOT_SPACING;
                    byy = BORDER + of_int ny * DOT_SPACING;
                    mx = 0.5 * (ax + bx);
                    my = 0.5 * (ay + byy);
                    d2 = (mx - fullX) * (mx - fullX) + (my - fullY) * (my - fullY)
                in if closer d2 best0 then Some (d2, node nx ny, node (nx + 1) ny) else best0)
             else best0);
          best2 =
            (if nx \<ge> 0 \<and> nx < COLS \<and> ny \<ge> 0 \<and> ny + 1 < ROWS then
               (let ax = BORDER + of_int nx * DOT_SPACING;
                    ay = BORDER + of_int ny * DOT_SPACING;
                    bx = BORDER + of_int nx * DOT_SPACING;
                    byy = BORDER + of_int (ny + 1) * DOT_SPACING;
                    mx = 0.5 * (ax + bx);
                    my = 0.5 * (ay + byy);
                    d2 = (mx - fullX) * (mx - fullX) + (my - fullY) * (my - fullY)
                in if closer d2 best1 then Some (d2, node nx ny, node nx (ny + 1)) else best1)
             else best1)
      in best2)"

text \<open>\<^verbatim>\<open>Math.round\<close> rounds halves up.\<close>

definition js_round :: "real \<Rightarrow> int" where
  "js_round r = \<lfloor>r + 1 / 2\<rfloor>"

definition findNearestEdgeToFull :: "real \<Rightarrow> real \<Rightarrow> best" where
  "findNearestEdgeToFull fullX fullY =
     (let gx = (fullX - BORDER) / DOT_SPACING;
          gy = (fullY - BORDER) / DOT_SPACING;
          ix = js_round gx;
          iy = js_round gy
      in fold (\<lambda>(dx, dy) bst. try_cell fullX fullY (ix + dx) (iy + dy) bst)
              (concat (map (\<lambda>dx. map (\<lambda>dy. (dx, dy)) [-2..2]) [-2..2])) None)"

text \<open>
  The \<^verbatim>\<open>pointerup\<close> listener of the canvas. With the pointer down and no recorded
  start, reading \<^verbatim>\<open>pointerStart.x\<close> throws after \<^verbatim>\<open>isPointerDown\<close> was reset, which
  ends the handler there.
\<close>

definition on_pointerup :: "pointer_event \<Rightarrow> state \<Rightarrow> state" where
  "on_pointerup ev s =
     (if isPointerDown s then
        (let s1 = s\<lparr>isPointerDown := False\<rparr> in
         case pointerStart s1 of
           None \<Rightarrow> s1
         | Some ps \<Rightarrow>
            (let dx = clientX ev - start_x ps;
                 dy = clientY ev - start_y ps;
                 s2 = (if isDragging s1 then s1
                       else if hypot dx dy \<le> DRAG_THRESHOLD then
                         (let sx = clientX ev - rectLeft ev;
                              sy = clientY ev - rectTop ev;
                              full = screenToFull s1 (sx, sy)
                          in case findNearestEdgeToFull (fst full) (snd full) of
                               None \<Rightarrow> s1
                             | Some (d, a, b) \<Rightarrow>
                                 (let distScreen = sqrt d * (width (canvas s1) / num (w (viewport s1)))
                                  in if distScreen \<le> EDGE_HIT_RADIUS then
                                       (if has (edges s1) (edgeKey a b)
                                        then snd (removeEdge a b s1)
                                        else snd (addEdge a b s1))
                                     else s1))
                       else s1)
             in s2\<lparr>pointerStart := None, isDragging := False\<rparr>))
      else s)"

subsection \<open>Loading a state\<close>

text \<open>Truthiness, \<^verbatim>\<open>typeof v === "object"\<close> for a truthy value, and property access.\<close>

definition truthy :: "jsval \<Rightarrow> bool" where
  "truthy v =
     (case v of JNull \<Rightarrow> False | JBool b \<Rightarrow> b | JNum r \<Rightarrow> r \<noteq> 0 | JStr s \<Rightarrow> s \<noteq> []
      | JArr xs \<Rightarrow> True | JObj ms \<Rightarrow> True)"

definition is_object :: "jsval \<Rightarrow> bool" where
  "is_object v = (case v of JArr xs \<Rightarrow> True | JObj ms \<Rightarrow> True | _ \<Rightarrow> False)"

text \<open>
  \<^verbatim>\<open>v.name\<close> for one of the names the program reads (\<^verbatim>\<open>edges\<close>, \<^verbatim>\<open>viewport\<close>,
  \<^verbatim>\<open>zoom\<close>, \<^verbatim>\<open>cx\<close>, \<^verbatim>\<open>cy\<close>): \<open>None\<close> is \<^verbatim>\<open>undefined\<close>, which is what every value
  but an object with that member gives.
\<close>

definition get_prop :: "jsval \<Rightarrow> string \<Rightarrow> jsval option" where
  "get_prop v name = (case v of JObj ms \<Rightarrow> map_of ms name | _ \<Rightarrow> None)"

text \<open>The body of the loop over \<^verbatim>\<open>obj.edges\<close>.\<close>

definition apply_edge :: "jsval \<Rightarrow> state \<Rightarrow> state" where
  "apply_edge e s =
     (case e of
        JArr vs \<Rightarrow>
          if length vs < 4 then s
          else
            (let a = \<lparr>px = vs ! 0, py = vs ! 1\<rparr>;
                 b = \<lparr>px = vs ! 2, py = vs ! 3\<rparr>;
                 k = edgeKey a b;
                 s1 = s\<lparr>edges := AList.update k True (edges s)\<rparr>;
                 s2 = s1\<lparr>degree := AList.update (nodeKey (px a) (py a))
                               (get_or (degree s1) (nodeKey (px a) (py a)) 0 + 1) (degree s1)\<rparr>;
                 s3 = s2\<lparr>degree := AList.update (nodeKey (px b) (py b))
                               (get_or (degree s2) (nodeKey (px b) (py b)) 0 + 1) (degree s2)\<rparr>
             in s3)
      | _ \<Rightarrow> s)"

definition apply_viewport :: "jsval \<Rightarrow> state \<Rightarrow> state" where
  "apply_viewport vp s =
     (let z = (case get_prop vp ''zoom'' of
                 Some (JNum r) \<Rightarrow> if r > 0 then r else zoom s
               | _ \<Rightarrow> zoom s);
          v1 = (case get_prop vp ''cx'' of
                  Some (JNum r) \<Rightarrow> (viewport s)\<lparr>cx := Some r\<rparr>
                | _ \<Rightarrow> viewport s);
          v2 = (case get_prop vp ''cy'' of
                  Some (JNum r) \<Rightarrow> v1\<lparr>cy := Some r\<rparr>
                | _ \<Rightarrow> v1);
          v3 = v2\<lparr>w := Some (width (canvas s) / z), h := Some (height (canvas s) / z)\<rparr>;
          v4 = v3\<lparr>cx := Some (max (num (w v3) / 2)
                     (min (fullWidth - num (w v3) / 2) (num (cx v3))))\<rparr>;
          v5 = v4\<lparr>cy := Some (max (num (h v4) / 2)
                     (min (fullHeight - num (h v4) / 2) (num (cy v4))))\<rparr>
      in s\<lparr>zoom := z, viewport := v5\<rparr>)"

definition applyState :: "jsval \<Rightarrow> state \<Rightarrow> state" where
  "applyState obj s =
     (if truthy obj then
        (let s1 = s\<lparr>edges := [], degree := []\<rparr>;
             s2 = (case get_prop obj ''edges'' of
                     Some (JArr es) \<Rightarrow> fold apply_edge es s1
                   | _ \<Rightarrow> s1);
             s3 = (case get_prop obj ''viewport'' of
                     Some vp \<Rightarrow> if truthy vp \<and> is_object vp then apply_viewport vp s2 else s2
                   | None \<Rightarrow> s2)
         in s3)
      else s)"

subsection \<open>Start-up\<close>

text \<open>
  The module-level variables as the script declares them (a canvas element starts at
  300 x 150), and \<^verbatim>\<open>initialize\<close>. The container's size and the result of
  \<^verbatim>\<open>loadStateFromURL\<close> (\<open>JNull\<close> when the address holds no state) are arguments.
\<close>

definition start :: state where
  "start = \<lparr>zoom = INITIAL_ZOOM,
            viewport = \<lparr>cx = None, cy = None, w = None, h = None\<rparr>,
            edges = [], degree = [],
            canvas = \<lparr>width = 300, height = 150\<rparr>,
            saveTimer = None, isPointerDown = False, pointerStart = None,
            isDragging = False\<rparr>"

definition initialize :: "real \<Rightarrow> real \<Rightarrow> jsval \<Rightarrow> state \<Rightarrow> state" where
  "initialize clientWidth clientHeight obj s =
     (let s1 = resizeCanvas clientWidth clientHeight s;
          v1 = (viewport s1)\<lparr>w := Some (width (canvas s1) / zoom s1),
                             h := Some (height (canvas s1) / zoom s1)\<rparr>;
          v2 = v1\<lparr>cx := Some (num (w v1) / 2)\<rparr>;
          v3 = v2\<lparr>cy := Some (num (h v2) / 2)\<rparr>;
          s2 = s1\<lparr>viewport := v3\<rparr>
      in if truthy obj then applyState obj s2
         else
           (let v = viewport s2;
                v4 = v\<lparr>cx := Some (max (num (w v) / 2)
                          (min (fullWidth - num (w v) / 2) (num (cx v))))\<rparr>;
                v5 = v4\<lparr>cy := Some (max (num (h v4) / 2)
                          (min (fullHeight - num (h v4) / 2) (num (cy v4))))\<rparr>
            in s2\<lparr>viewport := v5\<rparr>))"

text \<open>The editor after start-up in a container of 900 x 600 pixels, with no saved state.\<close>

definition state0 :: state where
  "state0 = initialize 900 600 JNull start"

subsection \<open>Predicates of the statements\<close>

text \<open>
  One axis of the viewport after the clamp \<^verbatim>\<open>Math.max(e/2, Math.min(full - e/2, c))\<close>:
  an extent that fits the world has its centre between \<open>e/2\<close> and \<open>full - e/2\<close>, which
  puts the visible interval inside \<open>[0, full]\<close>; a larger extent has its centre at
  \<open>e/2\<close>, its low edge at 0.
\<close>

definition axis_ok :: "real \<Rightarrow> real \<Rightarrow> real \<Rightarrow> bool" where
  "axis_ok extent full c =
     (if extent \<le> full then extent / 2 \<le> c \<and> c \<le> full - extent / 2 else c = extent / 2)"

definition viewport_clamped :: "state \<Rightarrow> bool" where
  "viewport_clamped s =
     (axis_ok (num (w (viewport s))) fullWidth (num (cx (viewport s))) \<and>
      axis_ok (num (h (viewport s))) fullHeight (num (cy (viewport s))))"

text \<open>The viewport rectangle lies within \<open>[0, fullWidth] x [0, fullHeight]\<close>.\<close>

definition rect_in_world :: "state \<Rightarrow> bool" where
  "rect_in_world s =
     (0 \<le> num (cx (viewport s)) - num (w (viewport s)) / 2 \<and>
      num (cx (viewport s)) + num (w (viewport s)) / 2 \<le> fullWidth \<and>
      0 \<le> num (cy (viewport s)) - num (h (viewport s)) / 2 \<and>
      num (cy (viewport s)) + num (h (viewport s)) / 2 \<le> fullHeight)"

text \<open>The state in which \<^verbatim>\<open>applyState\<close> reaches its viewport part.\<close>

definition loaded_edges :: "jsval \<Rightarrow> state \<Rightarrow> state" where
  "loaded_edges obj s =
     (case get_prop obj ''edges'' of
        Some (JArr es) \<Rightarrow> fold apply_edge es (s\<lparr>edges := [], degree := []\<rparr>)
      | _ \<Rightarrow> s\<lparr>edges := [], degree := []\<rparr>)"

subsection \<open>Example states and values\<close>

text \<open>
  A pointer pressed at the screen origin in a container of 640 x 480 pixels (the viewport
  is 200 x 150 there, its centre at (100, 75)); the start-up state after its container
  grew to 5000 x 600 pixels, wider than the world; and a saved state that asks for the
  zoom 100.
\<close>

definition drag_start :: state where
  "drag_start = on_pointerdown \<lparr>clientX = 0, clientY = 0, rectLeft = 0, rectTop = 0\<rparr>
                  (initialize 640 480 JNull start)"

definition wide_view :: state where
  "wide_view = on_resize 5000 600 state0"

definition zoom100 :: jsval where
  "zoom100 = JObj [(''viewport'', JObj [(''zoom'', JNum 100)])]"

subsection \<open>Reading the graph\<close>

text \<open>
  The degree of a node as the program reads it, \<^verbatim>\<open>degree.get(nodeKey(x, y)) || 0\<close>, and
  the number of edges of the edge map that touch a node: an edge key touches the node
  whose key is one of its two halves, \<^verbatim>\<open>k.split("|")\<close>, which is how \<^verbatim>\<open>draw\<close> and
  \<^verbatim>\<open>saveStateToURL\<close> read the end points back.
\<close>

definition degree_of :: "state \<Rightarrow> point \<Rightarrow> int" where
  "degree_of s n = get_or (degree s) (nodeKey (px n) (py n)) 0"

fun split_on :: "char \<Rightarrow> string \<Rightarrow> string list" where
  "split_on c [] = [[]]"
| "split_on c (x # xs) =
     (if x = c then [] # split_on c xs
      else (case split_on c xs of [] \<Rightarrow> [[x]] | p # ps \<Rightarrow> (x # p) # ps))"

definition incident :: "point \<Rightarrow> string \<Rightarrow> bool" where
  "incident n k = (nodeKey (px n) (py n) \<in> set (take 2 (split_on CHR ''|'' k)))"

definition incident_count :: "state \<Rightarrow> point \<Rightarrow> nat" where
  "incident_count s n = length (filter (\<lambda>e. incident n (fst e)) (edges s))"

text \<open>
  Sequences of \<^verbatim>\<open>addEdge\<close> and \<^verbatim>\<open>removeEdge\<close> calls on lattice nodes, and the
  lattice adjacency that the specification requires of the two nodes of a call (they
  differ by one in one coordinate and not in the other).
\<close>

datatype edge_op = AddEdge int int int int | RemoveEdge int int int int

fun run_op :: "edge_op \<Rightarrow> state \<Rightarrow> state" where
  "run_op (AddEdge i j k l) s = snd (addEdge (node i j) (node k l) s)"
| "run_op (RemoveEdge i j k l) s = snd (removeEdge (node i j) (node k l) s)"

definition run_ops :: "edge_op list \<Rightarrow> state \<Rightarrow> state" where
  "run_ops ops s = fold run_op ops s"

definition adjacent :: "int \<Rightarrow> int \<Rightarrow> int \<Rightarrow> int \<Rightarrow> bool" where
  "adjacent i j k l = ((\<bar>i - k\<bar> = 1 \<and> j = l) \<or> (i = k \<and> \<bar>j - l\<bar> = 1))"

fun op_adjacent :: "edge_op \<Rightarrow> bool" where
  "op_adjacent (AddEdge i j k l) = adjacent i j k l"
| "op_adjacent (RemoveEdge i j k l) = adjacent i j k l"

text \<open>
  Three edges at the node (5, 5), the third refused, and the first removed again; and a
  loop at (0, 0), added, joined by an edge to (1, 0), and removed.
\<close>

definition ops_example :: "edge_op list" where
  "ops_example = [AddEdge 5 5 6 5, AddEdge 5 5 5 6, AddEdge 5 5 4 5, RemoveEdge 5 5 6 5]"

definition loop_example :: "state" where
  "loop_example = snd (removeEdge (node 0 0) (node 0 0) (snd (addEdge (node 0 0) (node 1 0) (snd (addEdge (node 0 0) (node 0 0) start)))))"

text \<open>
  For the proofs: the decimal numeral of an integer and its inverse, and the invariant
  of the graph (no key twice in the edge map; every node's degree is the number of
  edges at it, and at most 2).
\<close>

definition is_digit :: "char \<Rightarrow> bool" where
  "is_digit c = (48 \<le> (of_char c :: nat) \<and> (of_char c :: nat) \<le> 57)"

definition str_nat :: "string \<Rightarrow> nat" where
  "str_nat cs = foldl (\<lambda>acc c. 10 * acc + (of_char c - 48)) 0 cs"

definition int_str :: "int \<Rightarrow> string" where
  "int_str i = (if i < 0 then ''-'' else []) @ nat_str (nat \<bar>i\<bar>)"

definition graph_inv :: "state \<Rightarrow> bool" where
  "graph_inv s =
     (distinct (map fst (edges s)) \<and>
      (\<forall>i j. degree_of s (node i j) = int (incident_count s (node i j)) \<and>
             degree_of s (node i j) \<le> 2))"

subsection \<open>Reading a saved state\<close>

text \<open>
  What \<^verbatim>\<open>applyState\<close> makes of the fields of the object it is given: the edge list, if
  \<^verbatim>\<open>edges\<close> is an array; the viewport, if \<^verbatim>\<open>viewport\<close> is a truthy object; a numeric
  member of the viewport; and, for one element of the edge list, the edge key and the two
  node keys that the loop body computes from it, if the element is an array of at least
  four components.
\<close>

definition edges_field :: "jsval \<Rightarrow> jsval list option" where
  "edges_field obj = (case get_prop obj ''edges'' of Some (JArr es) \<Rightarrow> Some es | _ \<Rightarrow> None)"

definition viewport_field :: "jsval \<Rightarrow> jsval option" where
  "viewport_field obj =
     (case get_prop obj ''viewport'' of
        Some vp \<Rightarrow> if truthy vp \<and> is_object vp then Some vp else None
      | None \<Rightarrow> None)"

definition num_prop :: "jsval \<Rightarrow> string \<Rightarrow> real option" where
  "num_prop v name = (case get_prop v name of Some (JNum r) \<Rightarrow> Some r | _ \<Rightarrow> None)"

definition tuple_key :: "jsval \<Rightarrow> string option" where
  "tuple_key e =
     (case e of
        JArr vs \<Rightarrow> if length vs < 4 then None
                   else Some (edgeKey \<lparr>px = vs ! 0, py = vs ! 1\<rparr> \<lparr>px = vs ! 2, py = vs ! 3\<rparr>)
      | _ \<Rightarrow> None)"

definition tuple_ends :: "jsval \<Rightarrow> string list" where
  "tuple_ends e =
     (case e of
        JArr vs \<Rightarrow> if length vs < 4 then []
                   else [nodeKey (vs ! 0) (vs ! 1), nodeKey (vs ! 2) (vs ! 3)]
      | _ \<Rightarrow> [])"

text \<open>
  Saved states: an edge list with a tuple of five numbers, one with a tuple of four
  strings, and one with four edges at the node (5, 5) among malformed elements; a state
  with only a zoom; one whose fields all have the wrong type. And the start-up state
  with one edge drawn.
\<close>

definition five_tuple :: jsval where
  "five_tuple = JObj [(''edges'', JArr [JArr [JNum 0, JNum 0, JNum 1, JNum 0, JNum 7]])]"

definition string_tuple :: jsval where
  "string_tuple = JObj [(''edges'', JArr [JArr [JStr ''a'', JStr ''b'', JStr ''c'', JStr ''d'']])]"

definition star_load :: jsval where
  "star_load = JObj [(''edges'', JArr [JArr [JNum 5, JNum 5, JNum 6, JNum 5],
                                       JArr [JNum 5, JNum 5, JNum 5, JNum 6],
                                       JArr [JNum 5, JNum 5, JNum 4, JNum 5],
                                       JArr [JNum 1, JNum 2, JNum 3],
                                       JStr ''5,5,5,4'',
                                       JArr [JNum 5, JNum 5, JNum 5, JNum 4]])]"

definition zoom_only :: jsval where
  "zoom_only = JObj [(''viewport'', JObj [(''zoom'', JNum 1)])]"

definition bad_fields :: jsval where
  "bad_fields = JObj [(''edges'', JStr ''not-an-array''),
                      (''viewport'', JObj [(''zoom'', JStr ''2''), (''cx'', JNull)])]"

definition one_edge :: state where
  "one_edge = snd (addEdge (node 5 5) (node 6 5) state0)"

section \<open>Properties\<close>

subsection \<open>Auxiliary facts\<close>

lemmas config_defs = COLS_def ROWS_def DOT_SPACING_def BORDER_def gridWidth_def gridHeight_def
  fullWidth_def fullHeight_def INITIAL_ZOOM_def EDGE_HIT_RADIUS_def DRAG_THRESHOLD_def

lemma num_simps [simp]: "num None = 0" "num (Some r) = r"
  by (simp_all add: num_def)

lemma state0_eq:
  "state0 = \<lparr>zoom = 3.2,
            viewport = \<lparr>cx = Some 140.625, cy = Some 93.75, w = Some 281.25, h = Some 187.5\<rparr>,
            edges = [], degree = [],
            canvas = \<lparr>width = 900, height = 600\<rparr>,
            saveTimer = None, isPointerDown = False, pointerStart = None,
            isDragging = False\<rparr>"
  by (simp add: state0_def initialize_def start_def resizeCanvas_def Let_def truthy_def
      config_defs)

lemma hypot_zero [simp]: "hypot a 0 = \<bar>a\<bar>"
  by (simp add: hypot_def)

lemma axis_ok_clamp: "axis_ok e f (max (e / 2) (min (f - e / 2) c))"
  by (auto simp: axis_ok_def max_def min_def)

lemma axis_ok_clamp_div: "axis_ok (a / z) f (max (a / (z * 2)) (min (f - a / (z * 2)) c))"
  using axis_ok_clamp [of "a / z" f c] by simp

lemma on_resize_clamped: "viewport_clamped (on_resize a b s)"
  by (simp add: viewport_clamped_def on_resize_def Let_def axis_ok_clamp_div)

lemma apply_viewport_clamped: "viewport_clamped (apply_viewport vp s)"
  by (simp add: viewport_clamped_def apply_viewport_def Let_def axis_ok_clamp_div)

lemma apply_edge_frame:
  "viewport (apply_edge e s) = viewport s \<and> zoom (apply_edge e s) = zoom s \<and>
   canvas (apply_edge e s) = canvas s"
  by (cases e) (simp_all add: apply_edge_def Let_def)

lemma fold_apply_edge_frame:
  "viewport (fold apply_edge es s) = viewport s \<and> zoom (fold apply_edge es s) = zoom s \<and>
   canvas (fold apply_edge es s) = canvas s"
proof (induction es arbitrary: s)
  case Nil
  show ?case by simp
next
  case (Cons e es)
  with apply_edge_frame [of e s] Cons.IH [of "apply_edge e s"] show ?case by simp
qed

lemma loaded_edges_frame:
  "viewport (loaded_edges obj s) = viewport s \<and> zoom (loaded_edges obj s) = zoom s \<and>
   canvas (loaded_edges obj s) = canvas s"
  by (simp add: loaded_edges_def fold_apply_edge_frame split: option.split jsval.split)

lemma applyState_unfold:
  "truthy obj \<Longrightarrow>
   applyState obj s =
     (case get_prop obj ''viewport'' of
        Some vp \<Rightarrow> if truthy vp \<and> is_object vp then apply_viewport vp (loaded_edges obj s)
                   else loaded_edges obj s
      | None \<Rightarrow> loaded_edges obj s)"
  unfolding applyState_def Let_def loaded_edges_def by simp

lemma applyState_clamped:
  "(viewport (applyState obj s) = viewport s \<and> zoom (applyState obj s) = zoom s) \<or>
   viewport_clamped (applyState obj s)"
proof (cases "truthy obj")
  case False
  then show ?thesis by (simp add: applyState_def)
next
  case True
  show ?thesis
    unfolding applyState_unfold [OF True]
    by (simp add: apply_viewport_clamped loaded_edges_frame split: option.split)
qed

lemma on_pointermove_clamped:
  "viewport (on_pointermove ev s) = viewport s \<or> viewport_clamped (on_pointermove ev s)"
proof (cases "pointerStart s")
  case None
  then show ?thesis by (simp add: on_pointermove_def)
next
  case (Some ps)
  show ?thesis
  proof (cases "isPointerDown s \<and> (isDragging s \<or>
                  hypot (clientX ev - start_x ps) (clientY ev - start_y ps) > DRAG_THRESHOLD)")
    case True
    then have "viewport_clamped (on_pointermove ev s)"
      using Some
      by (auto simp add: viewport_clamped_def on_pointermove_def scheduleSaveState_def Let_def
          axis_ok_clamp)
    then show ?thesis by simp
  next
    case False
    then have "viewport (on_pointermove ev s) = viewport s"
      using Some by (auto simp add: on_pointermove_def Let_def)
    then show ?thesis by simp
  qed
qed

lemma arrow_clamped:
  assumes "viewport_clamped s" "num (w (viewport s)) \<le> fullWidth"
    "num (h (viewport s)) \<le> fullHeight" and "0 \<le> st"
  shows "viewport_clamped (pan_left st s)" "viewport_clamped (pan_right st s)"
        "viewport_clamped (pan_up st s)" "viewport_clamped (pan_down st s)"
  using assms
  by (auto simp add: viewport_clamped_def axis_ok_def pan_left_def pan_right_def pan_up_def
      pan_down_def max_def min_def)

lemma clamped_scheduleSaveState [simp]:
  "viewport_clamped (scheduleSaveState d s) = viewport_clamped s"
  by (simp add: viewport_clamped_def scheduleSaveState_def)

lemma keydown_arrow_clamped:
  assumes "key \<in> {''ArrowLeft'', ''ArrowRight'', ''ArrowUp'', ''ArrowDown''}"
    and "viewport_clamped s" "num (w (viewport s)) \<le> fullWidth"
    "num (h (viewport s)) \<le> fullHeight"
  shows "viewport_clamped (on_keydown key s)"
proof -
  define st where "st = max 10 (0.06 * min (num (w (viewport s))) (num (h (viewport s))))"
  have st: "0 \<le> st" by (simp add: st_def)
  from assms(1) consider "key = ''ArrowLeft''" | "key = ''ArrowRight''" | "key = ''ArrowUp''"
    | "key = ''ArrowDown''"
    by auto
  then show ?thesis
  proof cases
    case 1
    then have "on_keydown key s = scheduleSaveState 500 (pan_left st s)"
      by (simp add: on_keydown_def Let_def st_def)
    then show ?thesis using arrow_clamped(1) [OF assms(2-4) st] by simp
  next
    case 2
    then have "on_keydown key s = scheduleSaveState 500 (pan_right st s)"
      by (simp add: on_keydown_def Let_def st_def)
    then show ?thesis using arrow_clamped(2) [OF assms(2-4) st] by simp
  next
    case 3
    then have "on_keydown key s = scheduleSaveState 500 (pan_up st s)"
      by (simp add: on_keydown_def Let_def st_def)
    then show ?thesis using arrow_clamped(3) [OF assms(2-4) st] by simp
  next
    case 4
    then have "on_keydown key s = scheduleSaveState 500 (pan_down st s)"
      by (simp add: on_keydown_def Let_def st_def)
    then show ?thesis using arrow_clamped(4) [OF assms(2-4) st] by simp
  qed
qed

lemma clamped_rect:
  assumes "viewport_clamped s" "num (w (viewport s)) \<le> fullWidth"
    "num (h (viewport s)) \<le> fullHeight"
  shows "rect_in_world s"
  using assms by (auto simp add: viewport_clamped_def axis_ok_def rect_in_world_def)

lemma keydown_minus: "on_keydown ''-'' s = scheduleSaveState 500 (zoom_out s)"
  by (simp add: on_keydown_def Let_def)

lemma keydown_frame:
  "edges (pan_left st s) = edges s" "degree (pan_left st s) = degree s"
  "edges (pan_right st s) = edges s" "degree (pan_right st s) = degree s"
  "edges (pan_up st s) = edges s" "degree (pan_up st s) = degree s"
  "edges (pan_down st s) = edges s" "degree (pan_down st s) = degree s"
  "edges (zoom_in s) = edges s" "degree (zoom_in s) = degree s"
  "edges (zoom_out s) = edges s" "degree (zoom_out s) = degree s"
  "edges (scheduleSaveState d s) = edges s" "degree (scheduleSaveState d s) = degree s"
  by (simp_all add: pan_left_def pan_right_def pan_up_def pan_down_def zoom_in_def
      zoom_out_def scheduleSaveState_def Let_def)

lemma addEdge_frame:
  "viewport (snd (addEdge a b s)) = viewport s \<and> zoom (snd (addEdge a b s)) = zoom s \<and>
   canvas (snd (addEdge a b s)) = canvas s"
  by (simp add: addEdge_def scheduleSaveState_def Let_def)

lemma removeEdge_frame:
  "viewport (snd (removeEdge a b s)) = viewport s \<and> zoom (snd (removeEdge a b s)) = zoom s \<and>
   canvas (snd (removeEdge a b s)) = canvas s"
  by (simp add: removeEdge_def scheduleSaveState_def Let_def)

lemma drag_start_eq:
  "drag_start = \<lparr>zoom = 3.2,
            viewport = \<lparr>cx = Some 100, cy = Some 75, w = Some 200, h = Some 150\<rparr>,
            edges = [], degree = [],
            canvas = \<lparr>width = 640, height = 480\<rparr>,
            saveTimer = None, isPointerDown = True,
            pointerStart = Some \<lparr>start_x = 0, start_y = 0, start_cx = Some 100, start_cy = Some 75\<rparr>,
            isDragging = False\<rparr>"
  by (simp add: drag_start_def on_pointerdown_def initialize_def start_def resizeCanvas_def
      Let_def truthy_def config_defs)

lemma drag_example:
  "on_pointermove \<lparr>clientX = 480, clientY = 0, rectLeft = 0, rectTop = 0\<rparr> drag_start =
     drag_start\<lparr>isDragging := True, saveTimer := Some 300\<rparr>"
  by (simp add: drag_start_eq on_pointermove_def scheduleSaveState_def Let_def config_defs)

lemma keydown_zoom_in:
  "key = ''+'' \<or> key = ''='' \<Longrightarrow> on_keydown key s = scheduleSaveState 500 (zoom_in s)"
  by (auto simp add: on_keydown_def Let_def)

lemma keydown_zoom_out:
  "key = ''-'' \<or> key = ''_'' \<Longrightarrow> on_keydown key s = scheduleSaveState 500 (zoom_out s)"
  by (auto simp add: on_keydown_def Let_def)

lemma keydown_zoom_range:
  assumes "0.6 \<le> zoom s" "zoom s \<le> 8"
  shows "0.6 \<le> zoom (on_keydown key s) \<and> zoom (on_keydown key s) \<le> 8"
proof -
  have a: "zoom (pan_left st t) = zoom t" "zoom (pan_right st t) = zoom t"
    "zoom (pan_up st t) = zoom t" "zoom (pan_down st t) = zoom t"
    "zoom (scheduleSaveState d t) = zoom t" for st t d
    by (simp_all add: pan_left_def pan_right_def pan_up_def pan_down_def scheduleSaveState_def)
  have b: "0.6 \<le> zoom t \<Longrightarrow> zoom t \<le> 8 \<Longrightarrow> 0.6 \<le> zoom (zoom_in t) \<and> zoom (zoom_in t) \<le> 8" for t
    by (simp add: zoom_in_def Let_def min_def)
  have c: "0.6 \<le> zoom t \<Longrightarrow> zoom t \<le> 8 \<Longrightarrow> 0.6 \<le> zoom (zoom_out t) \<and> zoom (zoom_out t) \<le> 8" for t
    by (simp add: zoom_out_def Let_def max_def)
  define st where "st = max 10 (0.06 * min (num (w (viewport s))) (num (h (viewport s))))"
  define s1 where "s1 = (if key = ''ArrowLeft'' then pan_left st s else s)"
  define s2 where "s2 = (if key = ''ArrowRight'' then pan_right st s1 else s1)"
  define s3 where "s3 = (if key = ''ArrowUp'' then pan_up st s2 else s2)"
  define s4 where "s4 = (if key = ''ArrowDown'' then pan_down st s3 else s3)"
  define s5 where "s5 = (if key = ''+'' \<or> key = ''='' then zoom_in s4 else s4)"
  define s6 where "s6 = (if key = ''-'' \<or> key = ''_'' then zoom_out s5 else s5)"
  have z4: "zoom s4 = zoom s" by (simp add: s4_def s3_def s2_def s1_def a)
  have r5: "0.6 \<le> zoom s5 \<and> zoom s5 \<le> 8" using b [of s4] assms z4 by (simp add: s5_def)
  have r6: "0.6 \<le> zoom s6 \<and> zoom s6 \<le> 8" using c [of s5] r5 by (simp add: s6_def)
  have "zoom (on_keydown key s) = zoom s6"
    unfolding on_keydown_def Let_def s6_def s5_def s4_def s3_def s2_def s1_def st_def
    by (simp add: a)
  with r6 show ?thesis by simp
qed

lemma applyState_zoom:
  assumes "truthy obj" "get_prop obj ''viewport'' = Some vp" "is_object vp"
    "get_prop vp ''zoom'' = Some (JNum r)" "0 < r"
  shows "zoom (applyState obj s) = r \<and>
         w (viewport (applyState obj s)) = Some (width (canvas s) / r) \<and>
         h (viewport (applyState obj s)) = Some (height (canvas s) / r) \<and>
         viewport_clamped (applyState obj s)"
proof -
  have t: "truthy vp" using assms(3) by (cases vp) (simp_all add: is_object_def truthy_def)
  have eq: "applyState obj s = apply_viewport vp (loaded_edges obj s)"
    using applyState_unfold [OF assms(1), of s] assms(2,3) t by simp
  show ?thesis
    unfolding eq using assms(4,5) loaded_edges_frame [of obj s] apply_viewport_clamped [of vp "loaded_edges obj s"]
    by (simp add: apply_viewport_def Let_def)
qed

lemma split_on_no_sep: "c \<notin> set ys \<Longrightarrow> split_on c ys = [ys]"
  by (induction ys) auto

lemma split_on_sep: "c \<notin> set xs \<Longrightarrow> split_on c (xs @ c # ys) = xs # split_on c ys"
  by (induction xs) auto

lemma sep_unique:
  "c \<notin> set xs \<Longrightarrow> c \<notin> set xs' \<Longrightarrow> xs @ c # ys = xs' @ c # ys' \<Longrightarrow> xs = xs' \<and> ys = ys'"
proof (induction xs arbitrary: xs')
  case Nil
  then show ?case by (cases xs') auto
next
  case (Cons x xs)
  then show ?case by (cases xs') auto
qed

lemma digit_char_code: "d < 10 \<Longrightarrow> (of_char (digit_char d) :: nat) = 48 + d"
  by (simp add: digit_char_def)

lemma nat_str_digits: "c \<in> set (nat_str n) \<Longrightarrow> is_digit c"
proof (induction n rule: nat_str.induct)
  case (1 n)
  show ?case
  proof (cases "n < 10")
    case True
    with "1.prems" show ?thesis
      by (simp add: nat_str.simps [of n] is_digit_def digit_char_code)
  next
    case False
    with "1.prems" "1.IH" show ?thesis
      by (auto simp add: nat_str.simps [of n] is_digit_def digit_char_code)
  qed
qed

lemma nat_str_nonempty: "nat_str n \<noteq> []"
  by (subst nat_str.simps) simp

lemma str_nat_nat_str: "str_nat (nat_str n) = n"
proof (induction n rule: nat_str.induct)
  case (1 n)
  show ?case
  proof (cases "n < 10")
    case True
    then show ?thesis by (simp add: nat_str.simps [of n] str_nat_def digit_char_code)
  next
    case False
    with "1.IH" have "str_nat (nat_str (n div 10)) = n div 10" by simp
    with False show ?thesis
      by (simp add: nat_str.simps [of n] str_nat_def digit_char_code)
  qed
qed

lemma nat_str_inj: "nat_str m = nat_str n \<Longrightarrow> m = n"
  by (metis str_nat_nat_str)

lemma num_str_of_int: "num_str (of_int i) = int_str i"
proof -
  have f: "\<lfloor>\<bar>real_of_int i\<bar>\<rfloor> = \<bar>i\<bar>" by (metis of_int_abs floor_of_int)
  have g: "frac \<bar>real_of_int i\<bar> = 0" by (metis of_int_abs frac_of_int)
  show ?thesis by (simp add: num_str_def int_str_def f g)
qed

lemma int_str_chars: "c \<in> set (int_str i) \<Longrightarrow> is_digit c \<or> c = CHR ''-''"
  by (auto simp add: int_str_def dest: nat_str_digits split: if_splits)

lemma int_str_inj: "int_str i = int_str j \<Longrightarrow> i = j"
proof -
  assume eq: "int_str i = int_str j"
  have hd: "is_digit (hd (nat_str n))" for n
    using nat_str_digits [of "hd (nat_str n)" n] nat_str_nonempty [of n] by simp
  have nd: "\<not> is_digit CHR ''-''" by (simp add: is_digit_def)
  show ?thesis
  proof (cases "i < 0"; cases "j < 0")
    assume "i < 0" "j < 0"
    with eq have "nat \<bar>i\<bar> = nat \<bar>j\<bar>" by (simp add: int_str_def nat_str_inj)
    with \<open>i < 0\<close> \<open>j < 0\<close> show ?thesis by simp
  next
    assume "i < 0" "\<not> j < 0"
    with eq have "CHR ''-'' # nat_str (nat \<bar>i\<bar>) = nat_str (nat \<bar>j\<bar>)" by (simp add: int_str_def)
    then have "hd (nat_str (nat \<bar>j\<bar>)) = CHR ''-''" by (metis list.sel(1))
    with hd [of "nat \<bar>j\<bar>"] nd show ?thesis by simp
  next
    assume "\<not> i < 0" "j < 0"
    with eq have "nat_str (nat \<bar>i\<bar>) = CHR ''-'' # nat_str (nat \<bar>j\<bar>)" by (simp add: int_str_def)
    then have "hd (nat_str (nat \<bar>i\<bar>)) = CHR ''-''" by (metis list.sel(1))
    with hd [of "nat \<bar>i\<bar>"] nd show ?thesis by simp
  next
    assume "\<not> i < 0" "\<not> j < 0"
    with eq have "nat \<bar>i\<bar> = nat \<bar>j\<bar>" by (simp add: int_str_def nat_str_inj)
    with \<open>\<not> i < 0\<close> \<open>\<not> j < 0\<close> show ?thesis by simp
  qed
qed

lemma nodeKey_node: "nodeKey (px (node i j)) (py (node i j)) = int_str i @ CHR '','' # int_str j"
  by (simp add: nodeKey_def node_def num_str_of_int)

lemma int_str_no_comma: "CHR '','' \<notin> set (int_str i)"
  using int_str_chars [of "CHR '',''" i] by (auto simp add: is_digit_def)

lemma int_str_no_bar: "CHR ''|'' \<notin> set (int_str i)"
  using int_str_chars [of "CHR ''|''" i] by (auto simp add: is_digit_def)

lemma nodeKey_inj:
  "nodeKey (px (node i j)) (py (node i j)) = nodeKey (px (node i' j')) (py (node i' j')) \<Longrightarrow>
   i = i' \<and> j = j'"
  using sep_unique [of "CHR '',''" "int_str i" "int_str i'" "int_str j" "int_str j'"]
  by (simp add: nodeKey_node int_str_no_comma int_str_inj)

lemma nodeKey_no_bar: "CHR ''|'' \<notin> set (nodeKey (px (node i j)) (py (node i j)))"
  by (simp add: nodeKey_node int_str_no_bar)

lemma has_iff: "has m k \<longleftrightarrow> k \<in> fst ` set m"
proof -
  have "map_of m k = None \<longleftrightarrow> k \<notin> fst ` set m" by (rule map_of_eq_None_iff)
  then show ?thesis by (cases "map_of m k") (auto simp add: has_def)
qed

lemma get_or_update: "get_or (AList.update k v m) k' 0 = (if k' = k then v else get_or m k' 0)"
  by (simp add: get_or_def update_conv')

lemma update_absent: "k \<notin> fst ` set m \<Longrightarrow> AList.update k v m = m @ [(k, v)]"
  by (induction m) auto

lemma filter_delete_count:
  "distinct (map fst m) \<Longrightarrow> k \<in> fst ` set m \<Longrightarrow>
   length (filter (\<lambda>e. Q (fst e)) m) =
   length (filter (\<lambda>e. Q (fst e)) (AList.delete k m)) + (if Q k then 1 else 0)"
proof (induction m)
  case Nil
  then show ?case by simp
next
  case (Cons p m)
  show ?case
  proof (cases "fst p = k")
    case True
    with Cons.prems have "k \<notin> fst ` set m" by auto
    then have "AList.delete k m = m" by (simp add: delete_id)
    with True show ?thesis by (cases p) (auto simp add: AList.delete_eq)
  next
    case False
    with Cons show ?thesis by (auto simp add: AList.delete_eq)
  qed
qed

lemma edgeKey_cases:
  "edgeKey a b = nodeKey (px a) (py a) @ CHR ''|'' # nodeKey (px b) (py b) \<or>
   edgeKey a b = nodeKey (px b) (py b) @ CHR ''|'' # nodeKey (px a) (py a)"
  by (simp add: edgeKey_def Let_def)

lemma edgeKey_sym: "edgeKey a b = edgeKey b a"
  by (auto simp add: edgeKey_def Let_def)

lemma incident_bar:
  "CHR ''|'' \<notin> set ka \<Longrightarrow> CHR ''|'' \<notin> set kb \<Longrightarrow>
   nodeKey (px n) (py n) \<in> set (take 2 (split_on CHR ''|'' (ka @ CHR ''|'' # kb))) \<longleftrightarrow>
   nodeKey (px n) (py n) = ka \<or> nodeKey (px n) (py n) = kb"
  by (simp add: split_on_sep split_on_no_sep)

lemma incident_edgeKey:
  "incident n (edgeKey (node i j) (node k l)) \<longleftrightarrow>
   nodeKey (px n) (py n) = nodeKey (px (node i j)) (py (node i j)) \<or>
   nodeKey (px n) (py n) = nodeKey (px (node k l)) (py (node k l))"
  using edgeKey_cases [of "node i j" "node k l"]
    incident_bar [OF nodeKey_no_bar [of i j] nodeKey_no_bar [of k l], of n]
    incident_bar [OF nodeKey_no_bar [of k l] nodeKey_no_bar [of i j], of n]
  unfolding incident_def by auto

lemma addEdge_fail: "\<not> fst (addEdge a b s) \<Longrightarrow> snd (addEdge a b s) = s"
  by (auto simp add: addEdge_def Let_def split: if_splits)

lemma addEdge_ok:
  assumes "fst (addEdge a b s)"
  shows "edges (snd (addEdge a b s)) = edges s @ [(edgeKey a b, True)]"
    and "degree (snd (addEdge a b s)) =
         AList.update (nodeKey (px b) (py b)) (degree_of s b + 1)
           (AList.update (nodeKey (px a) (py a)) (degree_of s a + 1) (degree s))"
    and "edgeKey a b \<notin> fst ` set (edges s)" and "degree_of s a < 2" and "degree_of s b < 2"
  using assms
  by (simp_all add: addEdge_def Let_def scheduleSaveState_def degree_of_def has_iff update_absent
      split: if_splits)

lemma removeEdge_fail: "\<not> fst (removeEdge a b s) \<Longrightarrow> snd (removeEdge a b s) = s"
  by (simp add: removeEdge_def Let_def split: if_splits)

lemma removeEdge_ok:
  assumes "fst (removeEdge a b s)"
  shows "edges (snd (removeEdge a b s)) = AList.delete (edgeKey a b) (edges s)"
    and "degree (snd (removeEdge a b s)) =
         (let m1 = AList.update (nodeKey (px a) (py a))
                     (get_or (degree s) (nodeKey (px a) (py a)) 1 - 1) (degree s)
          in AList.update (nodeKey (px b) (py b))
               (get_or m1 (nodeKey (px b) (py b)) 1 - 1) m1)"
    and "edgeKey a b \<in> fst ` set (edges s)"
  using assms
  by (simp_all add: removeEdge_def Let_def scheduleSaveState_def has_iff split: if_splits)

lemma get_or_pos: "0 < get_or m k 0 \<Longrightarrow> get_or m k 1 = get_or m k 0"
  by (simp add: get_or_def split: option.splits if_splits)

lemma addEdge_inv:
  assumes inv: "graph_inv s" and ne: "(i, j) \<noteq> (k, l)"
  shows "graph_inv (snd (addEdge (node i j) (node k l) s))"
proof (cases "fst (addEdge (node i j) (node k l) s)")
  case False
  then show ?thesis using inv by (simp add: addEdge_fail)
next
  case True
  let ?a = "node i j" and ?b = "node k l"
  let ?s' = "snd (addEdge ?a ?b s)"
  note ok = addEdge_ok [OF True]
  have kne: "nodeKey (px ?a) (py ?a) \<noteq> nodeKey (px ?b) (py ?b)"
    using ne nodeKey_inj [of i j k l] by auto
  have d: "distinct (map fst (edges ?s'))"
    using inv ok(1,3) by (simp add: graph_inv_def)
  have n: "degree_of ?s' (node p q) = int (incident_count ?s' (node p q)) \<and>
           degree_of ?s' (node p q) \<le> 2" for p q
  proof -
    from inv have old: "degree_of s (node p q) = int (incident_count s (node p q))"
      "degree_of s (node p q) \<le> 2"
      unfolding graph_inv_def by blast+
    have cnt: "incident_count ?s' (node p q) =
        incident_count s (node p q) + (if incident (node p q) (edgeKey ?a ?b) then 1 else 0)"
      by (simp add: incident_count_def ok(1))
    have deg: "degree_of ?s' (node p q) =
        (if nodeKey (px (node p q)) (py (node p q)) = nodeKey (px ?b) (py ?b)
         then degree_of s ?b + 1
         else if nodeKey (px (node p q)) (py (node p q)) = nodeKey (px ?a) (py ?a)
         then degree_of s ?a + 1 else degree_of s (node p q))"
      by (simp add: degree_of_def ok(2) get_or_update)
    show ?thesis
      using old cnt deg kne ok(4,5) incident_edgeKey [of "node p q" i j k l]
      by (auto simp add: degree_of_def)
  qed
  from d n show ?thesis unfolding graph_inv_def by blast
qed

lemma removeEdge_inv:
  assumes inv: "graph_inv s" and ne: "(i, j) \<noteq> (k, l)"
  shows "graph_inv (snd (removeEdge (node i j) (node k l) s))"
proof (cases "fst (removeEdge (node i j) (node k l) s)")
  case False
  then show ?thesis using inv by (simp add: removeEdge_fail)
next
  case True
  let ?a = "node i j" and ?b = "node k l"
  let ?ka = "nodeKey (px ?a) (py ?a)" and ?kb = "nodeKey (px ?b) (py ?b)"
  let ?s' = "snd (removeEdge ?a ?b s)"
  note ok = removeEdge_ok [OF True]
  have kne: "?ka \<noteq> ?kb"
    using ne nodeKey_inj [of i j k l] by auto
  from inv have dist: "distinct (map fst (edges s))" by (simp add: graph_inv_def)
  have d: "distinct (map fst (edges ?s'))"
    using dist ok(1) by (simp add: distinct_delete)
  have cnt: "incident_count s n =
        incident_count ?s' n + (if incident n (edgeKey ?a ?b) then 1 else 0)" for n
    unfolding incident_count_def ok(1)
    using filter_delete_count [OF dist ok(3), of "incident n"] by simp
  have ia: "incident ?a (edgeKey ?a ?b)" "incident ?b (edgeKey ?a ?b)"
    by (simp_all add: incident_edgeKey)
  from inv have olda: "degree_of s ?a = int (incident_count s ?a)"
    and oldb: "degree_of s ?b = int (incident_count s ?b)"
    unfolding graph_inv_def by blast+
  have pa: "0 < degree_of s ?a" using olda cnt [of ?a] ia by simp
  have pb: "0 < degree_of s ?b" using oldb cnt [of ?b] ia by simp
  have ga: "get_or (degree s) ?ka 1 = degree_of s ?a"
    using pa get_or_pos [of "degree s" ?ka] by (simp add: degree_of_def)
  have gb0: "get_or (degree s) ?kb 1 = degree_of s ?b"
    using pb get_or_pos [of "degree s" ?kb] by (simp add: degree_of_def)
  have gb: "get_or (AList.update ?ka v (degree s)) ?kb 1 = degree_of s ?b" for v
    using gb0 kne by (simp add: get_or_def update_conv')
  have deg': "degree ?s' = AList.update ?kb (degree_of s ?b - 1)
                 (AList.update ?ka (degree_of s ?a - 1) (degree s))"
    using ok(2) ga gb by (simp add: Let_def)
  have n: "degree_of ?s' (node p q) = int (incident_count ?s' (node p q)) \<and>
           degree_of ?s' (node p q) \<le> 2" for p q
  proof -
    from inv have old: "degree_of s (node p q) = int (incident_count s (node p q))"
      "degree_of s (node p q) \<le> 2"
      unfolding graph_inv_def by blast+
    have deg: "degree_of ?s' (node p q) =
        (if nodeKey (px (node p q)) (py (node p q)) = ?kb
         then degree_of s ?b - 1
         else if nodeKey (px (node p q)) (py (node p q)) = ?ka
         then degree_of s ?a - 1 else degree_of s (node p q))"
      by (simp add: degree_of_def deg' get_or_update)
    show ?thesis
      using old cnt [of "node p q"] deg kne incident_edgeKey [of "node p q" i j k l]
      by (auto simp add: degree_of_def)
  qed
  from d n show ?thesis unfolding graph_inv_def by blast
qed

lemma run_op_inv: "graph_inv s \<Longrightarrow> op_adjacent op \<Longrightarrow> graph_inv (run_op op s)"
proof (cases op)
  case (AddEdge i j k l)
  assume "graph_inv s" "op_adjacent op"
  with AddEdge show ?thesis using addEdge_inv [of s i j k l] by (auto simp add: adjacent_def)
next
  case (RemoveEdge i j k l)
  assume "graph_inv s" "op_adjacent op"
  with RemoveEdge show ?thesis using removeEdge_inv [of s i j k l] by (auto simp add: adjacent_def)
qed

lemma run_ops_inv: "graph_inv s \<Longrightarrow> list_all op_adjacent ops \<Longrightarrow> graph_inv (run_ops ops s)"
  unfolding run_ops_def
proof (induction ops arbitrary: s)
  case Nil
  then show ?case by simp
next
  case (Cons op ops)
  then show ?case using run_op_inv [of s op] by simp
qed

lemma empty_inv: "edges s = [] \<Longrightarrow> degree s = [] \<Longrightarrow> graph_inv s"
  by (simp add: graph_inv_def degree_of_def incident_count_def get_or_def)

lemma addEdge_fails_iff:
  "\<not> fst (addEdge a b s) \<longleftrightarrow>
     has (edges s) (edgeKey a b) \<or> 2 \<le> degree_of s a \<or> 2 \<le> degree_of s b"
  by (simp add: addEdge_def Let_def degree_of_def)

lemma addEdge_degrees:
  assumes "fst (addEdge a b s)"
  shows "degree_of (snd (addEdge a b s)) a = degree_of s a + 1"
    and "degree_of (snd (addEdge a b s)) b = degree_of s b + 1"
proof -
  note ok = addEdge_ok [OF assms]
  show "degree_of (snd (addEdge a b s)) b = degree_of s b + 1"
    by (simp add: degree_of_def [of "snd (addEdge a b s)"] ok(2) get_or_update)
  show "degree_of (snd (addEdge a b s)) a = degree_of s a + 1"
  proof (cases "nodeKey (px a) (py a) = nodeKey (px b) (py b)")
    case True
    then have "degree_of s a = degree_of s b" by (simp add: degree_of_def)
    with True show ?thesis
      by (simp add: degree_of_def [of "snd (addEdge a b s)"] ok(2) get_or_update)
  next
    case False
    then show ?thesis
      by (simp add: degree_of_def [of "snd (addEdge a b s)"] ok(2) get_or_update)
  qed
qed

lemma addEdge_twice:
  "\<not> fst (addEdge a b (snd (addEdge a b s))) \<and>
   snd (addEdge a b (snd (addEdge a b s))) = snd (addEdge a b s)"
proof (cases "fst (addEdge a b s)")
  case True
  from addEdge_ok(1) [OF True] have "has (edges (snd (addEdge a b s))) (edgeKey a b)"
    by (simp add: has_iff)
  then have "\<not> fst (addEdge a b (snd (addEdge a b s)))"
    by (simp add: addEdge_fails_iff)
  then show ?thesis by (simp add: addEdge_fail)
next
  case False
  then have "snd (addEdge a b s) = s" by (rule addEdge_fail)
  with False show ?thesis by simp
qed

lemma apply_viewport_graph:
  "edges (apply_viewport vp s) = edges s \<and> degree (apply_viewport vp s) = degree s"
  by (simp add: apply_viewport_def Let_def)

lemma apply_edge_skip: "tuple_key e = None \<Longrightarrow> apply_edge e s = s"
  by (cases e) (simp_all add: tuple_key_def apply_edge_def split: if_splits)

lemma apply_edge_keys:
  "fst ` set (edges (apply_edge e s)) = fst ` set (edges s) \<union> set_option (tuple_key e)"
  by (cases e) (simp_all add: tuple_key_def apply_edge_def Let_def dom_update)

lemma apply_edge_distinct:
  "distinct (map fst (edges s)) \<Longrightarrow> distinct (map fst (edges (apply_edge e s)))"
  by (cases e) (simp_all add: apply_edge_def Let_def distinct_update)

lemma apply_edge_degree:
  "get_or (degree (apply_edge e s)) nk 0 = get_or (degree s) nk 0 + int (count_list (tuple_ends e) nk)"
  by (cases e) (simp_all add: tuple_ends_def apply_edge_def Let_def get_or_update)

lemma fold_apply_edge_keys:
  "fst ` set (edges (fold apply_edge es s)) =
     fst ` set (edges s) \<union> {k. \<exists>e \<in> set es. tuple_key e = Some k}"
proof (induction es arbitrary: s)
  case Nil
  show ?case by simp
next
  case (Cons e es)
  show ?case
    unfolding fold_simps Cons.IH apply_edge_keys
    by (cases "tuple_key e") auto
qed

lemma fold_apply_edge_distinct:
  "distinct (map fst (edges s)) \<Longrightarrow> distinct (map fst (edges (fold apply_edge es s)))"
  by (induction es arbitrary: s) (simp_all add: apply_edge_distinct)

lemma count_list_append': "count_list (xs @ ys) x = count_list xs x + count_list ys x"
  by (induction xs) simp_all

lemma fold_apply_edge_degree:
  "get_or (degree (fold apply_edge es s)) nk 0 =
     get_or (degree s) nk 0 + int (count_list (concat (map tuple_ends es)) nk)"
proof (induction es arbitrary: s)
  case Nil
  show ?case by simp
next
  case (Cons e es)
  show ?case
    unfolding fold_simps Cons.IH apply_edge_degree
    by (simp add: count_list_append')
qed

lemma applyState_graph:
  "truthy obj \<Longrightarrow>
   edges (applyState obj s) = edges (loaded_edges obj s) \<and>
   degree (applyState obj s) = degree (loaded_edges obj s)"
  by (simp add: applyState_unfold apply_viewport_graph split: option.split)

lemma loaded_edges_some:
  "edges_field obj = Some es \<Longrightarrow>
   loaded_edges obj s = fold apply_edge es (s\<lparr>edges := [], degree := []\<rparr>)"
  by (simp add: edges_field_def loaded_edges_def split: option.splits jsval.splits)

lemma loaded_edges_none:
  "edges_field obj = None \<Longrightarrow> loaded_edges obj s = s\<lparr>edges := [], degree := []\<rparr>"
  by (simp add: edges_field_def loaded_edges_def split: option.splits jsval.splits)

lemma star_load_result:
  "map fst (edges (applyState star_load state0)) = [''5,5|6,5'', ''5,5|5,6'', ''4,5|5,5'', ''5,4|5,5''] \<and>
   get_or (degree (applyState star_load state0)) ''5,5'' 0 = 4"
  by code_simp

lemma applyState_falsy: "\<not> truthy obj \<Longrightarrow> applyState obj s = s"
  by (simp add: applyState_def)

lemma applyState_no_edges:
  "truthy obj \<Longrightarrow> edges_field obj = None \<Longrightarrow>
   edges (applyState obj s) = [] \<and> degree (applyState obj s) = []"
  by (simp add: applyState_graph loaded_edges_none)

lemma applyState_no_viewport:
  assumes "truthy obj" and "viewport_field obj = None"
  shows "viewport (applyState obj s) = viewport s \<and> zoom (applyState obj s) = zoom s"
proof (cases "get_prop obj ''viewport''")
  case None
  then have "applyState obj s = loaded_edges obj s"
    unfolding applyState_unfold [OF assms(1)] by simp
  then show ?thesis by (simp add: loaded_edges_frame)
next
  case (Some vp)
  with assms(2) have "\<not> (truthy vp \<and> is_object vp)"
    by (auto simp add: viewport_field_def split: if_splits)
  with Some have "applyState obj s = loaded_edges obj s"
    unfolding applyState_unfold [OF assms(1)] by auto
  then show ?thesis by (simp add: loaded_edges_frame)
qed

lemma applyState_viewport:
  assumes "truthy obj" and "viewport_field obj = Some vp"
  shows "applyState obj s = apply_viewport vp (loaded_edges obj s)"
proof (cases "get_prop obj ''viewport''")
  case None
  with assms(2) show ?thesis by (simp add: viewport_field_def)
next
  case (Some vp')
  with assms(2) have "vp' = vp \<and> truthy vp \<and> is_object vp"
    by (auto simp add: viewport_field_def split: if_splits)
  with Some show ?thesis
    unfolding applyState_unfold [OF assms(1)] by simp
qed

lemma apply_viewport_parts:
  fixes vp s
  defines "z \<equiv> (case get_prop vp ''zoom'' of
                 Some (JNum r) \<Rightarrow> if r > 0 then r else zoom s
               | _ \<Rightarrow> zoom s)"
    and "xc \<equiv> (case get_prop vp ''cx'' of Some (JNum r) \<Rightarrow> Some r | _ \<Rightarrow> cx (viewport s))"
    and "yc \<equiv> (case get_prop vp ''cy'' of Some (JNum r) \<Rightarrow> Some r | _ \<Rightarrow> cy (viewport s))"
  shows "zoom (apply_viewport vp s) = z"
    and "w (viewport (apply_viewport vp s)) = Some (width (canvas s) / z)"
    and "h (viewport (apply_viewport vp s)) = Some (height (canvas s) / z)"
    and "cx (viewport (apply_viewport vp s)) =
           Some (max (width (canvas s) / z / 2) (min (fullWidth - width (canvas s) / z / 2) (num xc)))"
    and "cy (viewport (apply_viewport vp s)) =
           Some (max (height (canvas s) / z / 2) (min (fullHeight - height (canvas s) / z / 2) (num yc)))"
proof -
  define v1 where "v1 = (case get_prop vp ''cx'' of
                  Some (JNum r) \<Rightarrow> (viewport s)\<lparr>cx := Some r\<rparr>
                | _ \<Rightarrow> viewport s)"
  define v2 where "v2 = (case get_prop vp ''cy'' of
                  Some (JNum r) \<Rightarrow> v1\<lparr>cy := Some r\<rparr>
                | _ \<Rightarrow> v1)"
  have x1: "cx v1 = xc" and y1: "cy v1 = cy (viewport s)"
    by (simp_all add: v1_def xc_def split: option.split jsval.split)
  have x2: "cx v2 = xc" and y2: "cy v2 = yc"
    by (simp_all add: v2_def yc_def x1 y1 split: option.split jsval.split)
  have e: "apply_viewport vp s =
     (let v3 = v2\<lparr>w := Some (width (canvas s) / z), h := Some (height (canvas s) / z)\<rparr>;
          v4 = v3\<lparr>cx := Some (max (num (w v3) / 2)
                     (min (fullWidth - num (w v3) / 2) (num (cx v3))))\<rparr>;
          v5 = v4\<lparr>cy := Some (max (num (h v4) / 2)
                     (min (fullHeight - num (h v4) / 2) (num (cy v4))))\<rparr>
      in s\<lparr>zoom := z, viewport := v5\<rparr>)"
    unfolding apply_viewport_def z_def v1_def v2_def Let_def by (rule refl)
  show "zoom (apply_viewport vp s) = z" by (simp add: e Let_def)
  show "w (viewport (apply_viewport vp s)) = Some (width (canvas s) / z)"
    by (simp add: e Let_def)
  show "h (viewport (apply_viewport vp s)) = Some (height (canvas s) / z)"
    by (simp add: e Let_def)
  show "cx (viewport (apply_viewport vp s)) =
           Some (max (width (canvas s) / z / 2) (min (fullWidth - width (canvas s) / z / 2) (num xc)))"
    by (simp add: e Let_def x2)
  show "cy (viewport (apply_viewport vp s)) =
           Some (max (height (canvas s) / z / 2) (min (fullHeight - height (canvas s) / z / 2) (num yc)))"
    by (simp add: e Let_def y2)
qed

lemma apply_viewport_zoom_kept:
  "num_prop vp ''zoom'' = None \<or> (\<exists>r. num_prop vp ''zoom'' = Some r \<and> r \<le> 0) \<Longrightarrow>
   zoom (apply_viewport vp s) = zoom s"
  unfolding apply_viewport_parts(1)
  by (auto simp add: num_prop_def split: option.splits jsval.splits)

lemma apply_viewport_extent:
  "w (viewport (apply_viewport vp s)) = Some (width (canvas s) / zoom (apply_viewport vp s)) \<and>
   h (viewport (apply_viewport vp s)) = Some (height (canvas s) / zoom (apply_viewport vp s))"
  by (simp only: apply_viewport_parts(1,2,3) simp_thms)

lemma apply_viewport_cx_kept:
  assumes "num_prop vp ''cx'' = None"
  shows "cx (viewport (apply_viewport vp s)) =
         Some (max (num (w (viewport (apply_viewport vp s))) / 2)
                (min (fullWidth - num (w (viewport (apply_viewport vp s))) / 2)
                   (num (cx (viewport s)))))"
proof -
  have a: "(case get_prop vp ''cx'' of Some (JNum r) \<Rightarrow> Some r | _ \<Rightarrow> cx (viewport s)) =
           cx (viewport s)"
    using assms by (simp add: num_prop_def split: option.splits jsval.splits)
  show ?thesis
    by (simp only: apply_viewport_parts(2,4) a num_simps)
qed

lemma apply_viewport_cy_kept:
  assumes "num_prop vp ''cy'' = None"
  shows "cy (viewport (apply_viewport vp s)) =
         Some (max (num (h (viewport (apply_viewport vp s))) / 2)
                (min (fullHeight - num (h (viewport (apply_viewport vp s))) / 2)
                   (num (cy (viewport s)))))"
proof -
  have a: "(case get_prop vp ''cy'' of Some (JNum r) \<Rightarrow> Some r | _ \<Rightarrow> cy (viewport s)) =
           cy (viewport s)"
    using assms by (simp add: num_prop_def split: option.splits jsval.splits)
  show ?thesis
    by (simp only: apply_viewport_parts(3,5) a num_simps)
qed

lemma applyState_viewport_parts:
  assumes "truthy obj" and "viewport_field obj = Some vp"
  shows "num_prop vp ''zoom'' = None \<or> (\<exists>r. num_prop vp ''zoom'' = Some r \<and> r \<le> 0) \<Longrightarrow>
         zoom (applyState obj s) = zoom s"
    and "num_prop vp ''cx'' = None \<Longrightarrow>
         cx (viewport (applyState obj s)) =
           Some (max (num (w (viewport (applyState obj s))) / 2)
                  (min (fullWidth - num (w (viewport (applyState obj s))) / 2)
                     (num (cx (viewport s)))))"
    and "num_prop vp ''cy'' = None \<Longrightarrow>
         cy (viewport (applyState obj s)) =
           Some (max (num (h (viewport (applyState obj s))) / 2)
                  (min (fullHeight - num (h (viewport (applyState obj s))) / 2)
                     (num (cy (viewport s)))))"
    and "w (viewport (applyState obj s)) = Some (width (canvas s) / zoom (applyState obj s))"
    and "h (viewport (applyState obj s)) = Some (height (canvas s) / zoom (applyState obj s))"
proof -
  note eq = applyState_viewport [OF assms, of s]
  note fr = loaded_edges_frame [of obj s]
  show "num_prop vp ''zoom'' = None \<or> (\<exists>r. num_prop vp ''zoom'' = Some r \<and> r \<le> 0) \<Longrightarrow>
         zoom (applyState obj s) = zoom s"
    using apply_viewport_zoom_kept [of vp "loaded_edges obj s"] fr by (simp only: eq)
  show "num_prop vp ''cx'' = None \<Longrightarrow>
         cx (viewport (applyState obj s)) =
           Some (max (num (w (viewport (applyState obj s))) / 2)
                  (min (fullWidth - num (w (viewport (applyState obj s))) / 2)
                     (num (cx (viewport s)))))"
    using apply_viewport_cx_kept [of vp "loaded_edges obj s"] fr by (simp only: eq)
  show "num_prop vp ''cy'' = None \<Longrightarrow>
         cy (viewport (applyState obj s)) =
           Some (max (num (h (viewport (applyState obj s))) / 2)
                  (min (fullHeight - num (h (viewport (applyState obj s))) / 2)
                     (num (cy (viewport s)))))"
    using apply_viewport_cy_kept [of vp "loaded_edges obj s"] fr by (simp only: eq)
  show "w (viewport (applyState obj s)) = Some (width (canvas s) / zoom (applyState obj s))"
    using apply_viewport_extent [of vp "loaded_edges obj s"] fr by (simp only: eq)
  show "h (viewport (applyState obj s)) = Some (height (canvas s) / zoom (applyState obj s))"
    using apply_viewport_extent [of vp "loaded_edges obj s"] fr by (simp only: eq)
qed

lemma bad_fields_eval:
  "truthy bad_fields \<and> edges_field bad_fields = None \<and>
   viewport_field bad_fields = Some (JObj [(''zoom'', JStr ''2''), (''cx'', JNull)]) \<and>
   num_prop (JObj [(''zoom'', JStr ''2''), (''cx'', JNull)]) ''zoom'' = None \<and>
   num_prop (JObj [(''zoom'', JStr ''2''), (''cx'', JNull)]) ''cx'' = None \<and>
   num_prop (JObj [(''zoom'', JStr ''2''), (''cx'', JNull)]) ''cy'' = None"
  by (simp add: bad_fields_def truthy_def edges_field_def viewport_field_def num_prop_def
      get_prop_def is_object_def)

subsection \<open>Coordinate transforms\<close>

text \<open>
  C9. With a positive viewport extent and canvas size in both axes, \<^verbatim>\<open>screenToFull\<close>
  undoes \<^verbatim>\<open>fullToScreen\<close> at every point, and \<^verbatim>\<open>fullToScreen\<close> undoes
  \<^verbatim>\<open>screenToFull\<close>: over exact arithmetic the two transforms are inverse to each other.
\<close>

theorem screenToFull_fullToScreen:
  assumes "0 < num (w (viewport s))" and "0 < num (h (viewport s))"
    and "0 < width (canvas s)" and "0 < height (canvas s)"
  shows "screenToFull s (fullToScreen s p) = p \<and> fullToScreen s (screenToFull s p) = p"
proof -
  have a: "screenToFull s (fullToScreen s p) = p"
    using assms by (simp add: screenToFull_def fullToScreen_def Let_def prod_eq_iff)
  have b: "fullToScreen s (screenToFull s p) = p"
    using assms by (simp add: screenToFull_def fullToScreen_def Let_def prod_eq_iff)
  from a b show ?thesis by simp
qed

theorem screenToFull_fullToScreen_witness:
  "0 < num (w (viewport state0)) \<and> 0 < num (h (viewport state0)) \<and>
   0 < width (canvas state0) \<and> 0 < height (canvas state0) \<and>
   screenToFull state0 (fullToScreen state0 (45, 27)) = (45, 27) \<and>
   fullToScreen state0 (screenToFull state0 (45, 27)) = (45, 27)"
  using screenToFull_fullToScreen [of state0 "(45, 27)"] by (simp add: state0_eq)

subsection \<open>The viewport stays clamped\<close>

text \<open>
  C7 (as stated, refuted). The claim promises the viewport rectangle inside the world
  after every viewport mutation, zoom included, and a centred viewport where it is larger
  than the world. After the key \<^verbatim>\<open>-\<close> in the start-up state the viewport (337.5 x 225)
  still fits the world but its left edge is at -28.125; and the viewport that a container
  of 5000 pixels gives is wider than the world and has its centre at half its own width,
  781.25, not at the middle of the world, the clamp having moved it.
\<close>

theorem viewport_rectangle_counterexample:
  "num (w (viewport (on_keydown ''-'' state0))) \<le> fullWidth \<and>
   num (h (viewport (on_keydown ''-'' state0))) \<le> fullHeight \<and>
   \<not> rect_in_world (on_keydown ''-'' state0) \<and>
   fullWidth < num (w (viewport wide_view)) \<and>
   num (cx (viewport wide_view)) \<noteq> fullWidth / 2 \<and>
   num (cx (viewport wide_view)) \<noteq> num (cx (viewport state0))"
  by (simp add: keydown_minus zoom_out_def scheduleSaveState_def rect_in_world_def Let_def
      wide_view_def on_resize_def resizeCanvas_def or_default_def state0_eq config_defs)

text \<open>
  C7 (amended). A resize, a state load that touches the viewport, and a pointer move that
  pans all leave each axis clamped by \<^verbatim>\<open>max(e/2, min(full - e/2, c))\<close>: the centre lies
  in \<open>[e/2, full - e/2]\<close> when the extent \<open>e\<close> fits the world, and at \<open>e/2\<close> when it
  does not. An arrow key keeps a clamped viewport that fits the world clamped. A clamped
  viewport that fits the world has its rectangle inside
  \<open>[0, fullWidth] x [0, fullHeight]\<close>. Nothing is said of the zoom keys.
\<close>

theorem viewport_clamped_after_mutation:
  "viewport_clamped (on_resize cw ch s) \<and>
   ((viewport (applyState obj s) = viewport s \<and> zoom (applyState obj s) = zoom s) \<or>
    viewport_clamped (applyState obj s)) \<and>
   (viewport (on_pointermove ev s) = viewport s \<or> viewport_clamped (on_pointermove ev s)) \<and>
   (key \<in> {''ArrowLeft'', ''ArrowRight'', ''ArrowUp'', ''ArrowDown''} \<and> viewport_clamped s \<and>
    num (w (viewport s)) \<le> fullWidth \<and> num (h (viewport s)) \<le> fullHeight \<longrightarrow>
      viewport_clamped (on_keydown key s)) \<and>
   (viewport_clamped s \<and> num (w (viewport s)) \<le> fullWidth \<and>
    num (h (viewport s)) \<le> fullHeight \<longrightarrow> rect_in_world s)"
  using on_resize_clamped applyState_clamped on_pointermove_clamped keydown_arrow_clamped
    clamped_rect by blast

text \<open>
  The theorem at the start-up state, and the pan of the specification's example: with
  \<open>w/2 = 100\<close> a drag by 480 pixels to the right asks for \<open>cx = -50\<close> and gets 100.
\<close>

theorem viewport_clamped_after_mutation_witness:
  "''ArrowLeft'' \<in> {''ArrowLeft'', ''ArrowRight'', ''ArrowUp'', ''ArrowDown''} \<and>
   viewport_clamped state0 \<and> num (w (viewport state0)) \<le> fullWidth \<and>
   num (h (viewport state0)) \<le> fullHeight \<and>
   viewport_clamped (on_keydown ''ArrowLeft'' state0) \<and> rect_in_world state0 \<and>
   viewport_clamped (on_resize 5000 600 state0) \<and>
   num (start_cx (the (pointerStart drag_start))) +
     - (480 - start_x (the (pointerStart drag_start))) *
       (num (w (viewport drag_start)) / width (canvas drag_start)) = - 50 \<and>
   cx (viewport (on_pointermove \<lparr>clientX = 480, clientY = 0, rectLeft = 0, rectTop = 0\<rparr>
                   drag_start)) = Some 100"
proof -
  have k: "''ArrowLeft'' \<in> {''ArrowLeft'', ''ArrowRight'', ''ArrowUp'', ''ArrowDown''}"
    by simp
  have c: "viewport_clamped state0"
    by (simp add: state0_eq viewport_clamped_def axis_ok_def config_defs)
  have e: "num (w (viewport state0)) \<le> fullWidth" "num (h (viewport state0)) \<le> fullHeight"
    by (simp_all add: state0_eq config_defs)
  have d: "num (start_cx (the (pointerStart drag_start))) +
     - (480 - start_x (the (pointerStart drag_start))) *
       (num (w (viewport drag_start)) / width (canvas drag_start)) = - 50"
    by (simp add: drag_start_eq)
  have m: "cx (viewport (on_pointermove \<lparr>clientX = 480, clientY = 0, rectLeft = 0, rectTop = 0\<rparr>
                   drag_start)) = Some 100"
    by (simp add: drag_example) (simp add: drag_start_eq)
  from viewport_clamped_after_mutation [of 5000 600 state0 JNull
      "\<lparr>clientX = 0, clientY = 0, rectLeft = 0, rectTop = 0\<rparr>" "''ArrowLeft''"] k c e d m
  show ?thesis by blast
qed

subsection \<open>Zoom changes\<close>

text \<open>
  C8 (as stated, refuted). A state load takes the zoom 100 as it is, outside
  \<open>[0.6, 8]\<close>; and after the key \<^verbatim>\<open>-\<close> in the start-up state the centre is not clamped
  for the new extent, although the viewport fits the world.
\<close>

theorem zoom_change_counterexample:
  "zoom (applyState zoom100 state0) = 100 \<and> \<not> (100::real) \<le> 8 \<and>
   \<not> viewport_clamped (on_keydown ''-'' state0) \<and>
   num (w (viewport (on_keydown ''-'' state0))) \<le> fullWidth \<and>
   num (h (viewport (on_keydown ''-'' state0))) \<le> fullHeight"
  by (simp add: keydown_minus zoom_out_def scheduleSaveState_def viewport_clamped_def axis_ok_def
      Let_def state0_eq config_defs applyState_def apply_viewport_def zoom100_def truthy_def
      get_prop_def is_object_def)

text \<open>
  C8 (amended). The keys \<^verbatim>\<open>+\<close> and \<^verbatim>\<open>=\<close> set the zoom to \<open>min 8 (zoom * 1.2)\<close>, the
  keys \<^verbatim>\<open>-\<close> and \<^verbatim>\<open>_\<close> to \<open>max 0.6 (zoom / 1.2)\<close>, and both recompute the extents
  from the canvas size and the new zoom; a zoom inside \<open>[0.6, 8]\<close> stays inside under
  every key. A state load whose viewport object carries a positive number as zoom takes
  that number unclamped, recomputes the extents from it and clamps the centre.
\<close>

theorem zoom_change:
  "(key = ''+'' \<or> key = ''='' \<longrightarrow> zoom (on_keydown key s) = min 8 (zoom s * 1.2)) \<and>
   (key = ''-'' \<or> key = ''_'' \<longrightarrow> zoom (on_keydown key s) = max 0.6 (zoom s / 1.2)) \<and>
   (key \<in> {''+'', ''='', ''-'', ''_''} \<longrightarrow>
      w (viewport (on_keydown key s)) = Some (width (canvas s) / zoom (on_keydown key s)) \<and>
      h (viewport (on_keydown key s)) = Some (height (canvas s) / zoom (on_keydown key s))) \<and>
   (0.6 \<le> zoom s \<and> zoom s \<le> 8 \<longrightarrow>
      0.6 \<le> zoom (on_keydown key s) \<and> zoom (on_keydown key s) \<le> 8) \<and>
   (truthy obj \<and> get_prop obj ''viewport'' = Some vp \<and> is_object vp \<and>
    get_prop vp ''zoom'' = Some (JNum r) \<and> 0 < r \<longrightarrow>
      zoom (applyState obj s) = r \<and>
      w (viewport (applyState obj s)) = Some (width (canvas s) / r) \<and>
      h (viewport (applyState obj s)) = Some (height (canvas s) / r) \<and>
      viewport_clamped (applyState obj s))"
proof -
  have a: "key = ''+'' \<or> key = ''='' \<Longrightarrow> zoom (on_keydown key s) = min 8 (zoom s * 1.2)"
    by (simp add: keydown_zoom_in zoom_in_def scheduleSaveState_def Let_def)
  have b: "key = ''-'' \<or> key = ''_'' \<Longrightarrow> zoom (on_keydown key s) = max 0.6 (zoom s / 1.2)"
    by (simp add: keydown_zoom_out zoom_out_def scheduleSaveState_def Let_def)
  have c: "w (viewport (on_keydown key s)) = Some (width (canvas s) / zoom (on_keydown key s)) \<and>
      h (viewport (on_keydown key s)) = Some (height (canvas s) / zoom (on_keydown key s))"
    if "key \<in> {''+'', ''='', ''-'', ''_''}"
  proof -
    from that consider "key = ''+'' \<or> key = ''=''" | "key = ''-'' \<or> key = ''_''" by auto
    then show ?thesis
    proof cases
      case 1
      then show ?thesis
        by (simp add: keydown_zoom_in zoom_in_def scheduleSaveState_def Let_def)
    next
      case 2
      then show ?thesis
        by (simp add: keydown_zoom_out zoom_out_def scheduleSaveState_def Let_def)
    qed
  qed
  from a b c keydown_zoom_range [of s key] applyState_zoom [of obj vp r s]
  show ?thesis by blast
qed

theorem zoom_change_witness:
  "(''-'' = ''-'' \<or> ''-'' = ''_'') \<and> ''-'' \<in> {''+'', ''='', ''-'', ''_''} \<and>
   0.6 \<le> zoom state0 \<and> zoom state0 \<le> 8 \<and>
   truthy zoom100 \<and> get_prop zoom100 ''viewport'' = Some (JObj [(''zoom'', JNum 100)]) \<and>
   is_object (JObj [(''zoom'', JNum 100)]) \<and>
   get_prop (JObj [(''zoom'', JNum 100)]) ''zoom'' = Some (JNum 100) \<and> (0::real) < 100 \<and>
   zoom (on_keydown ''-'' state0) = max 0.6 (zoom state0 / 1.2) \<and>
   w (viewport (on_keydown ''-'' state0)) =
     Some (width (canvas state0) / zoom (on_keydown ''-'' state0)) \<and>
   0.6 \<le> zoom (on_keydown ''-'' state0) \<and> zoom (on_keydown ''-'' state0) \<le> 8 \<and>
   zoom (applyState zoom100 state0) = 100 \<and>
   w (viewport (applyState zoom100 state0)) = Some (width (canvas state0) / 100) \<and>
   viewport_clamped (applyState zoom100 state0)"
proof -
  have k: "''-'' = ''-'' \<or> ''-'' = ''_''" "''-'' \<in> {''+'', ''='', ''-'', ''_''}" by simp_all
  have z: "0.6 \<le> zoom state0" "zoom state0 \<le> 8" by (simp_all add: state0_eq)
  have o: "truthy zoom100" "get_prop zoom100 ''viewport'' = Some (JObj [(''zoom'', JNum 100)])"
    "is_object (JObj [(''zoom'', JNum 100)])"
    "get_prop (JObj [(''zoom'', JNum 100)]) ''zoom'' = Some (JNum 100)" "(0::real) < 100"
    by (simp_all add: zoom100_def truthy_def get_prop_def is_object_def)
  from zoom_change [of "''-''" state0 zoom100 "JObj [(''zoom'', JNum 100)]" 100] k z o
  show ?thesis by blast
qed

subsection \<open>Frame conditions of the handlers\<close>

text \<open>
  C10. A pointer move (the drag that pans) and a key press (arrow keys, zoom keys) leave
  the edge map and the degree map as they were, whatever the event and the state; a
  pointer release (the tap that toggles an edge) leaves the four viewport fields and the
  zoom as they were.
\<close>

theorem pan_zoom_tap_frame:
  "edges (on_pointermove ev s) = edges s \<and> degree (on_pointermove ev s) = degree s \<and>
   edges (on_keydown key s) = edges s \<and> degree (on_keydown key s) = degree s \<and>
   viewport (on_pointerup ev s) = viewport s \<and> zoom (on_pointerup ev s) = zoom s"
proof -
  have a: "edges (on_pointermove ev s) = edges s \<and> degree (on_pointermove ev s) = degree s"
    by (cases "pointerStart s") (simp_all add: on_pointermove_def scheduleSaveState_def Let_def)
  have b: "edges (on_keydown key s) = edges s \<and> degree (on_keydown key s) = degree s"
    by (simp add: on_keydown_def Let_def keydown_frame)
  have c: "viewport (on_pointerup ev s) = viewport s \<and> zoom (on_pointerup ev s) = zoom s"
  proof (cases "pointerStart s")
    case None
    then show ?thesis by (simp add: on_pointerup_def Let_def)
  next
    case (Some ps)
    then show ?thesis
      by (simp add: on_pointerup_def Let_def addEdge_frame removeEdge_frame
          split: option.split prod.split)
  qed
  from a b c show ?thesis by simp
qed

subsection \<open>The graph\<close>

text \<open>
  C1. Start from the empty graph and run any sequence of \<^verbatim>\<open>addEdge\<close> and
  \<^verbatim>\<open>removeEdge\<close> calls, each on two lattice-adjacent nodes as the operations
  require. After every operation (after every prefix \<open>take n ops\<close> of the sequence)
  and for every node, the degree the program holds for the node is the number of edges
  of the edge map that touch it, and it is at most 2.
\<close>

theorem degree_invariant:
  assumes "edges s = []" and "degree s = []" and "list_all op_adjacent ops"
  shows "degree_of (run_ops (take n ops) s) (node i j) =
           int (incident_count (run_ops (take n ops) s) (node i j)) \<and>
         degree_of (run_ops (take n ops) s) (node i j) \<le> 2"
proof -
  have "list_all op_adjacent (take n ops)"
    using assms(3) by (auto simp add: list_all_iff dest: in_set_takeD)
  with empty_inv [OF assms(1,2)] have "graph_inv (run_ops (take n ops) s)"
    by (rule run_ops_inv)
  then show ?thesis unfolding graph_inv_def by blast
qed

theorem degree_invariant_witness:
  "edges start = [] \<and> degree start = [] \<and> list_all op_adjacent ops_example \<and>
   degree_of (run_ops (take 3 ops_example) start) (node 5 5) =
     int (incident_count (run_ops (take 3 ops_example) start) (node 5 5)) \<and>
   degree_of (run_ops (take 3 ops_example) start) (node 5 5) \<le> 2 \<and>
   degree_of (run_ops (take 3 ops_example) start) (node 5 5) = 2"
proof -
  have e: "edges start = []" "degree start = []" by (simp_all add: start_def)
  have a: "list_all op_adjacent ops_example" by (simp add: ops_example_def adjacent_def)
  have v: "degree_of (run_ops (take 3 ops_example) start) (node 5 5) = 2" by code_simp
  from degree_invariant [OF e a, of 3 5 5] e a v show ?thesis by blast
qed

text \<open>
  The two nodes of a call have to differ for this: a loop counts once when it is added
  and twice when it is removed. The editor never asks for one.
\<close>

lemma loop_removed_twice: "degree_of loop_example (node 0 0) = 0 \<and> incident_count loop_example (node 0 0) = 1"
  by code_simp

text \<open>
  C3. \<^verbatim>\<open>addEdge(a, b)\<close> fails exactly when the key of the edge is already in the edge
  map or one of the two nodes has a degree of 2 or more; while degrees are at most 2, as
  the data model has them, that is a degree of exactly 2. A failed call returns the state
  it was given. A successful call appends the canonical key, which is the same for
  \<open>(a, b)\<close> and \<open>(b, a)\<close>, to the edge map and adds one to the degree of either node.
  A second call with the same nodes always fails and leaves the whole state, the edge
  map included, as the first call left it.
\<close>

theorem addEdge_spec:
  "(\<not> fst (addEdge a b s) \<longleftrightarrow>
      has (edges s) (edgeKey a b) \<or> 2 \<le> degree_of s a \<or> 2 \<le> degree_of s b) \<and>
   (degree_of s a \<le> 2 \<and> degree_of s b \<le> 2 \<longrightarrow>
      (\<not> fst (addEdge a b s) \<longleftrightarrow>
         has (edges s) (edgeKey a b) \<or> degree_of s a = 2 \<or> degree_of s b = 2)) \<and>
   (\<not> fst (addEdge a b s) \<longrightarrow> snd (addEdge a b s) = s) \<and>
   (fst (addEdge a b s) \<longrightarrow>
      edges (snd (addEdge a b s)) = edges s @ [(edgeKey a b, True)] \<and>
      degree_of (snd (addEdge a b s)) a = degree_of s a + 1 \<and>
      degree_of (snd (addEdge a b s)) b = degree_of s b + 1) \<and>
   edgeKey b a = edgeKey a b \<and>
   \<not> fst (addEdge a b (snd (addEdge a b s))) \<and>
   snd (addEdge a b (snd (addEdge a b s))) = snd (addEdge a b s)"
proof -
  note f = addEdge_fails_iff [of a b s]
  have g: "degree_of s a \<le> 2 \<and> degree_of s b \<le> 2 \<longrightarrow>
      (\<not> fst (addEdge a b s) \<longleftrightarrow>
         has (edges s) (edgeKey a b) \<or> degree_of s a = 2 \<or> degree_of s b = 2)"
    using f by auto
  from f g addEdge_fail [of a b s] addEdge_ok(1) [of a b s] addEdge_degrees [of a b s]
    edgeKey_sym [of b a] addEdge_twice [of a b s]
  show ?thesis by blast
qed

theorem addEdge_spec_witness:
  "degree_of start (node 5 5) \<le> 2 \<and> degree_of start (node 6 5) \<le> 2 \<and>
   fst (addEdge (node 5 5) (node 6 5) start) \<and>
   \<not> fst (addEdge (node 5 5) (node 6 5) (snd (addEdge (node 5 5) (node 6 5) start))) \<and>
   edges (snd (addEdge (node 5 5) (node 6 5) start)) =
     edges start @ [(edgeKey (node 5 5) (node 6 5), True)] \<and>
   degree_of (snd (addEdge (node 5 5) (node 6 5) start)) (node 5 5) =
     degree_of start (node 5 5) + 1 \<and>
   snd (addEdge (node 5 5) (node 6 5) (snd (addEdge (node 5 5) (node 6 5) start))) =
     snd (addEdge (node 5 5) (node 6 5) start)"
proof -
  have d: "degree_of start (node 5 5) \<le> 2" "degree_of start (node 6 5) \<le> 2"
    by (simp_all add: degree_of_def start_def get_or_def)
  have ok: "fst (addEdge (node 5 5) (node 6 5) start)"
    by (simp add: addEdge_def start_def has_def get_or_def Let_def)
  from addEdge_spec [of "node 5 5" "node 6 5" start] d ok show ?thesis by blast
qed

subsection \<open>Loading a state\<close>

text \<open>
  C5 (as stated, refuted). The claim has every tuple that is not exactly four numbers
  skipped. A tuple of five numbers is loaded by its first four components, and a tuple of
  four strings is loaded as an edge between the nodes \<^verbatim>\<open>a,b\<close> and \<^verbatim>\<open>c,d\<close>.
\<close>

theorem bulk_load_counterexample:
  "edges (applyState five_tuple start) = [(''0,0|1,0'', True)] \<and>
   edges (applyState string_tuple start) = [(''a,b|c,d'', True)]"
  by code_simp

text \<open>
  C5 (amended). Loading a truthy object whose \<^verbatim>\<open>edges\<close> is an array replaces the edge
  map and the degree map, whatever they held: the keys of the new edge map are the keys
  of the elements that are arrays of at least four components, each taken from its first
  four components, once each; every other element is skipped; and the degree of a node
  key is the number of times it occurs as an end of an accepted element, with no bound.
\<close>

theorem bulk_load:
  assumes "truthy obj" and "edges_field obj = Some es"
  shows "fst ` set (edges (applyState obj s)) = {k. \<exists>e \<in> set es. tuple_key e = Some k} \<and>
         distinct (map fst (edges (applyState obj s))) \<and>
         get_or (degree (applyState obj s)) nk 0 =
           int (count_list (concat (map tuple_ends es)) nk)"
proof -
  let ?s0 = "s\<lparr>edges := [], degree := []\<rparr>"
  have e: "edges (applyState obj s) = edges (fold apply_edge es ?s0)"
    and d: "degree (applyState obj s) = degree (fold apply_edge es ?s0)"
    using applyState_graph [OF assms(1), of s] loaded_edges_some [OF assms(2), of s] by simp_all
  have k: "fst ` set (edges (fold apply_edge es ?s0)) = {k. \<exists>e \<in> set es. tuple_key e = Some k}"
    using fold_apply_edge_keys [of es ?s0] by simp
  have di: "distinct (map fst (edges (fold apply_edge es ?s0)))"
    by (rule fold_apply_edge_distinct) simp
  have g: "get_or (degree (fold apply_edge es ?s0)) nk 0 =
           int (count_list (concat (map tuple_ends es)) nk)"
    using fold_apply_edge_degree [of es ?s0 nk] by (simp add: get_or_def)
  from k di g show ?thesis unfolding e d by simp
qed

theorem bulk_load_witness:
  "truthy star_load \<and>
   edges_field star_load = Some [JArr [JNum 5, JNum 5, JNum 6, JNum 5],
                                       JArr [JNum 5, JNum 5, JNum 5, JNum 6],
                                       JArr [JNum 5, JNum 5, JNum 4, JNum 5],
                                       JArr [JNum 1, JNum 2, JNum 3],
                                       JStr ''5,5,5,4'',
                                       JArr [JNum 5, JNum 5, JNum 5, JNum 4]] \<and>
   distinct (map fst (edges (applyState star_load state0))) \<and>
   get_or (degree (applyState star_load state0)) ''5,5'' 0 = 4"
proof -
  have t: "truthy star_load" by (simp add: star_load_def truthy_def)
  have f: "edges_field star_load = Some [JArr [JNum 5, JNum 5, JNum 6, JNum 5],
                                       JArr [JNum 5, JNum 5, JNum 5, JNum 6],
                                       JArr [JNum 5, JNum 5, JNum 4, JNum 5],
                                       JArr [JNum 1, JNum 2, JNum 3],
                                       JStr ''5,5,5,4'',
                                       JArr [JNum 5, JNum 5, JNum 5, JNum 4]]"
    by (simp add: star_load_def edges_field_def get_prop_def)
  from bulk_load [OF t f, of state0 "''5,5''"] t f star_load_result show ?thesis by blast
qed

text \<open>
  C6 (as stated, refuted). The claim has the value of every absent field preserved. An
  object without \<^verbatim>\<open>edges\<close> empties the edge map and the degree map, and a viewport
  that brings only a zoom moves the centre: it is clamped again for the new extent.
\<close>

theorem applyState_defaults_counterexample:
  "edges one_edge = [(''5,5|6,5'', True)] \<and> edges (applyState (JObj []) one_edge) = [] \<and>
   degree (applyState (JObj []) one_edge) = [] \<and>
   cx (viewport state0) = Some 140.625 \<and> cx (viewport (applyState zoom_only state0)) = Some 450"
  by code_simp

text \<open>
  C6 (amended). \<^verbatim>\<open>applyState\<close> always returns a state. A falsy object changes
  nothing. For a truthy object: without an array \<^verbatim>\<open>edges\<close> the edge map and the degree
  map become empty; without a truthy object \<^verbatim>\<open>viewport\<close> the zoom and the four viewport
  fields stay as they are; with one, a zoom that is not a positive number leaves the zoom
  as it is, a \<^verbatim>\<open>cx\<close> or \<^verbatim>\<open>cy\<close> that is not a number leaves the current centre
  coordinate to be clamped for the recomputed extent, and the extents are recomputed from
  the canvas size and the zoom.
\<close>

theorem applyState_defaults:
  "(\<not> truthy obj \<longrightarrow> applyState obj s = s) \<and>
   (truthy obj \<and> edges_field obj = None \<longrightarrow>
      edges (applyState obj s) = [] \<and> degree (applyState obj s) = []) \<and>
   (truthy obj \<and> viewport_field obj = None \<longrightarrow>
      viewport (applyState obj s) = viewport s \<and> zoom (applyState obj s) = zoom s) \<and>
   (truthy obj \<and> viewport_field obj = Some vp \<longrightarrow>
      (num_prop vp ''zoom'' = None \<or> (\<exists>r. num_prop vp ''zoom'' = Some r \<and> r \<le> 0) \<longrightarrow>
         zoom (applyState obj s) = zoom s) \<and>
      (num_prop vp ''cx'' = None \<longrightarrow>
         cx (viewport (applyState obj s)) =
           Some (max (num (w (viewport (applyState obj s))) / 2)
                  (min (fullWidth - num (w (viewport (applyState obj s))) / 2)
                     (num (cx (viewport s)))))) \<and>
      (num_prop vp ''cy'' = None \<longrightarrow>
         cy (viewport (applyState obj s)) =
           Some (max (num (h (viewport (applyState obj s))) / 2)
                  (min (fullHeight - num (h (viewport (applyState obj s))) / 2)
                     (num (cy (viewport s)))))) \<and>
      w (viewport (applyState obj s)) = Some (width (canvas s) / zoom (applyState obj s)) \<and>
      h (viewport (applyState obj s)) = Some (height (canvas s) / zoom (applyState obj s)))"
  using applyState_falsy [of obj s] applyState_no_edges [of obj s]
    applyState_no_viewport [of obj s] applyState_viewport_parts [of obj vp s]
  by blast

theorem applyState_defaults_witness:
  "truthy bad_fields \<and> edges_field bad_fields = None \<and>
   viewport_field bad_fields = Some (JObj [(''zoom'', JStr ''2''), (''cx'', JNull)]) \<and>
   num_prop (JObj [(''zoom'', JStr ''2''), (''cx'', JNull)]) ''zoom'' = None \<and>
   num_prop (JObj [(''zoom'', JStr ''2''), (''cx'', JNull)]) ''cx'' = None \<and>
   edges (applyState bad_fields one_edge) = [] \<and>
   zoom (applyState bad_fields one_edge) = zoom one_edge \<and>
   cx (viewport (applyState bad_fields one_edge)) =
     Some (max (num (w (viewport (applyState bad_fields one_edge))) / 2)
            (min (fullWidth - num (w (viewport (applyState bad_fields one_edge))) / 2)
               (num (cx (viewport one_edge)))))"
proof -
  note th = applyState_defaults [of bad_fields one_edge
      "JObj [(''zoom'', JStr ''2''), (''cx'', JNull)]"]
  note e = bad_fields_eval
  from e have t: "truthy bad_fields" and ef: "edges_field bad_fields = None"
    and vf: "viewport_field bad_fields = Some (JObj [(''zoom'', JStr ''2''), (''cx'', JNull)])"
    and nz: "num_prop (JObj [(''zoom'', JStr ''2''), (''cx'', JNull)]) ''zoom'' = None"
    and nx: "num_prop (JObj [(''zoom'', JStr ''2''), (''cx'', JNull)]) ''cx'' = None"
    by simp_all
  from th t ef have c1: "edges (applyState bad_fields one_edge) = []" by blast
  from th t vf nz have c2: "zoom (applyState bad_fields one_edge) = zoom one_edge" by blast
  from th t vf nx have c3: "cx (viewport (applyState bad_fields one_edge)) =
     Some (max (num (w (viewport (applyState bad_fields one_edge))) / 2)
            (min (fullWidth - num (w (viewport (applyState bad_fields one_edge))) / 2)
               (num (cx (viewport one_edge)))))" by blast
  from t ef vf nz nx c1 c2 c3 show ?thesis by blast
qed

end
